theory Spec2Isabelle
  imports Main "HOL-Library.Sublist" "HOL-Library.AList"
begin

section \<open>Strings\<close>

text \<open>
  A Python string is modelled by \<^typ>\<open>string\<close>, one \<^typ>\<open>char\<close> per code point below 256.
  \<^verbatim>\<open>str.lower()\<close> moves the capital letters A-Z and the capital letters of the
  Latin-1 block (192-222 without the multiplication sign 215) up by 32 and leaves every other
  code point below 256 alone. \<^verbatim>\<open>str.isdigit()\<close> holds for a non-empty string of
  digit characters: 0-9 and the superscript digits 178, 179 and 185.
  \<^verbatim>\<open>a in s\<close> on strings is \<^const>\<open>sublist\<close>, \<^verbatim>\<open>s.endswith(t)\<close> is
  \<^const>\<open>suffix\<close>.
\<close>

definition lower_char :: "char \<Rightarrow> char" where
  "lower_char c =
     (let n = (of_char c :: nat)
      in if (65 \<le> n \<and> n \<le> 90) \<or> (192 \<le> n \<and> n \<le> 222 \<and> n \<noteq> 215)
         then char_of (n + 32) else c)"

definition lower :: "string \<Rightarrow> string" where
  "lower s = map lower_char s"

definition isdigit_char :: "char \<Rightarrow> bool" where
  "isdigit_char c =
     (let n = (of_char c :: nat)
      in (48 \<le> n \<and> n \<le> 57) \<or> n = 178 \<or> n = 179 \<or> n = 185)"

definition isdigit :: "string \<Rightarrow> bool" where
  "isdigit s = (s \<noteq> [] \<and> list_all isdigit_char s)"

definition contains :: "string \<Rightarrow> string \<Rightarrow> bool" where
  "contains s sub = sublist sub s"

definition endswith :: "string \<Rightarrow> string \<Rightarrow> bool" where
  "endswith s suf = suffix suf s"

section \<open>Dictionaries\<close>

text \<open>
  A Python \<^verbatim>\<open>dict\<close> keeps its keys in insertion order, and the year scan of
  \<^verbatim>\<open>_fill_pdf_form\<close> depends on that order. A dictionary is an association list
  with distinct keys, in insertion order. \<^verbatim>\<open>d[k] = v\<close> replaces the value of an
  existing key where it stands and appends a new key at the end.
\<close>

type_synonym 'v dict = "(string \<times> 'v) list"

definition well_formed :: "'v dict \<Rightarrow> bool" where
  "well_formed d = distinct (map fst d)"

definition setitem :: "'v dict \<Rightarrow> string \<Rightarrow> 'v \<Rightarrow> 'v dict" where
  "setitem d k v = AList.update k v d"

definition get :: "'v dict \<Rightarrow> string \<Rightarrow> 'v option" where
  "get d k = map_of d k"

definition get_or :: "'v dict \<Rightarrow> string \<Rightarrow> 'v \<Rightarrow> 'v" where
  "get_or d k dflt = (case map_of d k of Some v \<Rightarrow> v | None \<Rightarrow> dflt)"

definition has_key :: "'v dict \<Rightarrow> string \<Rightarrow> bool" where
  "has_key d k = (map_of d k \<noteq> None)"

definition keys :: "'v dict \<Rightarrow> string list" where
  "keys d = map fst d"

section \<open>The normalization passes of \<^verbatim>\<open>_fill_pdf_form\<close>\<close>

text \<open>
  The value map goes from field names to strings (the interface of
  \<^verbatim>\<open>fillPdfForm\<close>); on a string \<^verbatim>\<open>str(value)\<close> is the value itself and
  \<^verbatim>\<open>not value\<close> holds for the empty string only.
\<close>

definition month_map :: "string dict" where
  "month_map =
     [(''january'', ''01''), (''february'', ''02''), (''march'', ''03''), (''april'', ''04''),
      (''may'', ''05''), (''june'', ''06''), (''july'', ''07''), (''august'', ''08''),
      (''september'', ''09''), (''october'', ''10''), (''november'', ''11''),
      (''december'', ''12'')]"

text \<open>The value that the month loop stores under \<open>key\<close>.\<close>

definition month_value :: "string \<Rightarrow> string \<Rightarrow> string" where
  "month_value key val =
     (if contains (lower key) ''month'' \<and> has_key month_map (lower val)
      then get_or month_map (lower val) [] else val)"

text \<open>
  The loop over \<^verbatim>\<open>field_values.items()\<close>: the items still to visit, and
  \<^verbatim>\<open>processed_values\<close> so far.
\<close>

fun month_loop :: "string dict \<Rightarrow> string dict \<Rightarrow> string dict" where
  "month_loop [] processed_values = processed_values"
| "month_loop ((key, val) # rest) processed_values =
     month_loop rest (setitem processed_values key (month_value key val))"

definition normalize_months :: "string dict \<Rightarrow> string dict" where
  "normalize_months field_values = month_loop field_values []"

subsection \<open>Year split\<close>

text \<open>
  The exceptions that the code can raise. \<open>Raised\<close> is an exception of an external
  capability (HTTP client, PDF library, text generation, file system), with its text.
  \<open>AttributeError t a\<close> is the access of the attribute \<open>a\<close> that a value of type
  \<open>t\<close> does not have, \<open>NotIterable t\<close> the iteration over such a value.
\<close>

datatype exn =
    Raised string
  | IndexError
  | KeyError string
  | AttributeError string string
  | NotIterable string

fun str_exn :: "exn \<Rightarrow> string" where
  "str_exn (Raised text) = text"
| "str_exn IndexError = ''string index out of range''"
| "str_exn (KeyError k) = [CHR 0x27] @ k @ [CHR 0x27]"
| "str_exn (AttributeError t a) =
     [CHR 0x27] @ t @ [CHR 0x27] @ '' object has no attribute '' @ [CHR 0x27] @ a @ [CHR 0x27]"
| "str_exn (NotIterable t) = [CHR 0x27] @ t @ [CHR 0x27] @ '' object is not iterable''"

text \<open>Sequencing of steps that may raise.\<close>

definition and_then :: "exn + 'a \<Rightarrow> ('a \<Rightarrow> exn + 'b) \<Rightarrow> exn + 'b" where
  "and_then r f = (case r of Inl e \<Rightarrow> Inl e | Inr x \<Rightarrow> f x)"

text \<open>\<^verbatim>\<open>s[i]\<close> on a string: the one-character string at \<open>i\<close>, or IndexError.\<close>

definition char_at :: "string \<Rightarrow> nat \<Rightarrow> exn + string" where
  "char_at s i = (if i < length s then Inr [s ! i] else Inl IndexError)"

definition year_key :: "string \<Rightarrow> bool" where
  "year_key key = (contains (lower key) ''yr'' \<or> contains (lower key) ''year'')"

text \<open>The scan with its \<^verbatim>\<open>break\<close>: the items still to visit and \<^verbatim>\<open>current_year\<close>.\<close>

fun year_scan :: "string dict \<Rightarrow> string \<Rightarrow> string" where
  "year_scan [] current_year = current_year"
| "year_scan ((key, val) # rest) current_year =
     (if year_key key
      then (if length val = 4 \<and> isdigit val then val else year_scan rest current_year)
      else year_scan rest current_year)"

definition split_year :: "string dict \<Rightarrow> exn + string dict" where
  "split_year processed_values =
     (let current_year = year_scan processed_values ''2025'' in
      and_then (char_at current_year 0) (\<lambda>c1.
      and_then (char_at current_year 1) (\<lambda>c2.
      and_then (char_at current_year 2) (\<lambda>c3.
      and_then (char_at current_year 3) (\<lambda>c4.
        Inr (setitem (setitem (setitem (setitem processed_values
               ''Year-1'' c1) ''Year-2'' c2) ''Year-3'' c3) ''Year-4'' c4))))))"

subsection \<open>Default backfill\<close>

definition defaults :: "string dict" where
  "defaults =
     [(''Month'', ''03''), (''Day'', ''15''),
      (''Seller State'', ''CA''), (''Buyer State'', ''CA''),
      (''Sell zip'', ''90210''), (''Buyer zip'', ''90210''),
      (''Sell date 1'', ''03/15/2025''), (''Sell date 2'', [])]"

text \<open>\<^verbatim>\<open>not d.get(k)\<close>: the key is absent (\<^verbatim>\<open>None\<close>) or its value is empty.\<close>

definition not_get :: "string dict \<Rightarrow> string \<Rightarrow> bool" where
  "not_get d k = (case get d k of None \<Rightarrow> True | Some v \<Rightarrow> v = [])"

fun backfill_loop :: "string dict \<Rightarrow> string dict \<Rightarrow> string dict" where
  "backfill_loop [] processed_values = processed_values"
| "backfill_loop ((field, default_value) # rest) processed_values =
     backfill_loop rest
       (if \<not> has_key processed_values field \<or> not_get processed_values field
        then setitem processed_values field default_value else processed_values)"

definition backfill :: "string dict \<Rightarrow> string dict" where
  "backfill processed_values = backfill_loop defaults processed_values"

subsection \<open>Duplicate seller row\<close>

definition primary_key :: string where
  "primary_key = ''Print seller'' @ [CHR 0x27] @ ''s name''"

definition first_seller :: "string dict \<Rightarrow> string" where
  "first_seller processed_values =
     (let a = get_or processed_values primary_key []
      in if a \<noteq> [] then a else get_or processed_values ''Seller print name 1'' [])"

definition second_seller :: "string dict \<Rightarrow> string" where
  "second_seller processed_values = get_or processed_values ''Seller print name 2'' []"

text \<open>The loop over the snapshot \<^verbatim>\<open>list(processed_values.keys())\<close>.\<close>

fun clear_loop :: "string list \<Rightarrow> string dict \<Rightarrow> string dict" where
  "clear_loop [] processed_values = processed_values"
| "clear_loop (key # rest) processed_values =
     clear_loop rest
       (if endswith key '' 2'' then setitem processed_values key [] else processed_values)"

definition clear_duplicate_seller :: "string dict \<Rightarrow> string dict" where
  "clear_duplicate_seller processed_values =
     (if second_seller processed_values = [] \<or>
         second_seller processed_values = first_seller processed_values
      then clear_loop (keys processed_values) processed_values
      else processed_values)"

text \<open>The four passes in the order of the source.\<close>

definition normalize_values :: "string dict \<Rightarrow> exn + string dict" where
  "normalize_values field_values =
     and_then (split_year (normalize_months field_values)) (\<lambda>processed_values.
       Inr (clear_duplicate_seller (backfill processed_values)))"

section \<open>The month table in the words of the specification\<close>

text \<open>
  The full English month names in calendar order, and the two decimal digits of a number
  below 100. The \<open>i\<close>-th name (counted from 1) stands for the month number \<open>i\<close>.
\<close>

definition month_names :: "string list" where
  "month_names =
     [''january'', ''february'', ''march'', ''april'', ''may'', ''june'', ''july'', ''august'',
      ''september'', ''october'', ''november'', ''december'']"

definition two_digits :: "nat \<Rightarrow> string" where
  "two_digits n = [char_of (48 + n div 10), char_of (48 + n mod 10)]"

section \<open>The canonical year in the words of the specification\<close>

text \<open>
  The first value, in the order of the map, that has four characters, all of them digits, and
  stands under a name containing "yr" or "year" in any case; "2025" when there is none.
\<close>

definition canonical_year :: "string dict \<Rightarrow> string" where
  "canonical_year d =
     (case filter (\<lambda>(k, v). (sublist ''yr'' (lower k) \<or> sublist ''year'' (lower k)) \<and>
                              length v = 4 \<and> isdigit v) d of
        [] \<Rightarrow> ''2025''
      | (k, v) # _ \<Rightarrow> v)"

section \<open>Decoded JSON\<close>

text \<open>
  The values that \<^verbatim>\<open>response.json()\<close> returns. An object is the decoded
  \<^verbatim>\<open>dict\<close>, its items in order. A floating-point number is kept by its text;
  no operation of the program looks into it.
\<close>

datatype json =
    JNull
  | JBool bool
  | JInt int
  | JFloat string
  | JStr string
  | JArr "json list"
  | JObj "(string \<times> json) list"

text \<open>The name of the Python type of a decoded value, as exception texts print it.\<close>

fun type_name :: "json \<Rightarrow> string" where
  "type_name JNull = ''NoneType''"
| "type_name (JBool b) = ''bool''"
| "type_name (JInt i) = ''int''"
| "type_name (JFloat f) = ''float''"
| "type_name (JStr s) = ''str''"
| "type_name (JArr xs) = ''list''"
| "type_name (JObj d) = ''dict''"

text \<open>\<^verbatim>\<open>x.get(key, default)\<close>: only a \<^verbatim>\<open>dict\<close> has the method.\<close>

fun py_get :: "json \<Rightarrow> string \<Rightarrow> json \<Rightarrow> exn + json" where
  "py_get (JObj d) key dflt = Inr (get_or d key dflt)"
| "py_get x key dflt = Inl (AttributeError (type_name x) ''get'')"

text \<open>
  \<^verbatim>\<open>for part in x\<close>: a list gives its elements, a \<^verbatim>\<open>dict\<close> its keys, a
  string its characters; the other values are not iterable.
\<close>

fun py_iter :: "json \<Rightarrow> exn + json list" where
  "py_iter (JArr xs) = Inr xs"
| "py_iter (JObj d) = Inr (map (\<lambda>(k, v). JStr k) d)"
| "py_iter (JStr s) = Inr (map (\<lambda>c. JStr [c]) s)"
| "py_iter x = Inl (NotIterable (type_name x))"

section \<open>Documents, files and the outside world\<close>

text \<open>
  A widget of the PDF library with the three attributes that the program reads or writes. A
  document is the list of its pages, a page the list of its widgets, both in order. A file
  holds a document that the PDF library opens, or something else.
\<close>

record widget =
  field_name :: string
  field_type_string :: string
  field_value :: string

type_synonym document = "widget list list"

datatype content = Pdf document | Other string

text \<open>
  The external capabilities, as the program consumes them. A capability that can raise
  returns the text of its exception on the left.
  \<^item> \<open>http_json url\<close>: \<^verbatim>\<open>httpx.get\<close>, \<^verbatim>\<open>raise_for_status\<close> and
    \<^verbatim>\<open>response.json()\<close>;
  \<^item> \<open>http_content url\<close>: \<^verbatim>\<open>httpx.get\<close> following redirects,
    \<^verbatim>\<open>raise_for_status\<close> and \<^verbatim>\<open>response.content\<close>;
  \<^item> \<open>size_bytes\<close>: the length of a content in bytes;
  \<^item> \<open>write_error path\<close>: the exception of the file system when \<open>path\<close> cannot be
    written, if any;
  \<^item> \<open>open_error path\<close>: the text of the exception of \<^verbatim>\<open>pymupdf.open\<close> on a
    path that holds no document;
  \<^item> \<open>drive_links part\<close>: the matches of the storage link pattern in
    \<^verbatim>\<open>str(part)\<close>, in order, and none when that text has no "drive.google.com";
  \<^item> \<open>generate field_names\<close>: the text generation call with the prompt built from the
    names, and the decoding of its answer;
  \<^item> \<open>update_widget wd v\<close>: \<^verbatim>\<open>widget.field_value = v\<close> followed by
    \<^verbatim>\<open>widget.update()\<close> on the widget \<open>wd\<close>: the value that the field of the
    document then holds (the library decides what it stores; it need not be \<open>v\<close>), or the
    exception of \<^verbatim>\<open>update()\<close>;
  \<^item> \<open>with_stem_filled path\<close>: \<^verbatim>\<open>Path(path).with_stem(Path(path).stem + "_filled")\<close>
    as a string;
  \<^item> \<open>b64encode\<close>: the base64 text of a saved file.
\<close>

record env =
  http_json :: "string \<Rightarrow> string + json"
  http_content :: "string \<Rightarrow> string + content"
  size_bytes :: "content \<Rightarrow> nat"
  write_error :: "string \<Rightarrow> string option"
  open_error :: "string \<Rightarrow> string"
  drive_links :: "json \<Rightarrow> string list"
  generate :: "string list \<Rightarrow> string + string dict"
  update_widget :: "widget \<Rightarrow> string \<Rightarrow> string + string"
  with_stem_filled :: "string \<Rightarrow> string + string"
  b64encode :: "content \<Rightarrow> string"

definition external :: "string + 'a \<Rightarrow> exn + 'a" where
  "external r = (case r of Inl text \<Rightarrow> Inl (Raised text) | Inr x \<Rightarrow> Inr x)"

text \<open>
  What the program changes: the files, the \<^verbatim>\<open>dict\<close> objects that hold value maps
  (a store from references to contents; the references below \<open>next_ref\<close> are allocated),
  and the calls of external capabilities made so far.
\<close>

datatype event =
    HttpGet string
  | WriteFile string
  | OpenPdf string
  | Generate "string list"
  | SavePdf string
  | ReadFile string

record world =
  files :: "string \<Rightarrow> content option"
  heap :: "nat \<Rightarrow> string dict"
  next_ref :: nat
  trace :: "event list"

definition log :: "event \<Rightarrow> world \<Rightarrow> world" where
  "log e w = w\<lparr>trace := trace w @ [e]\<rparr>"

text \<open>A new \<^verbatim>\<open>dict\<close> object with the given content: its reference and the new world.\<close>

definition new_dict :: "string dict \<Rightarrow> world \<Rightarrow> nat \<times> world" where
  "new_dict d w = (next_ref w, w\<lparr>heap := (heap w)(next_ref w := d), next_ref := Suc (next_ref w)\<rparr>)"

text \<open>The object behind \<open>r\<close> changed in place.\<close>

definition update_dict :: "nat \<Rightarrow> (string dict \<Rightarrow> string dict) \<Rightarrow> world \<Rightarrow> world" where
  "update_dict r f w = w\<lparr>heap := (heap w)(r := f (heap w r))\<rparr>"

definition pymupdf_open :: "env \<Rightarrow> world \<Rightarrow> string \<Rightarrow> exn + document" where
  "pymupdf_open env w path =
     (case files w path of
        Some (Pdf doc) \<Rightarrow> Inr doc
      | _ \<Rightarrow> Inl (Raised (open_error env path)))"

section \<open>Results\<close>

text \<open>
  Every operation returns a \<^verbatim>\<open>dict\<close> with a \<^verbatim>\<open>status\<close>. There is one
  constructor for each set of keys that the program builds: \<open>Message\<close> for a status with a
  message, and one for the success of each operation, with the values in the order of the
  source. The message of \<open>Processed\<close> is left out: it starts with a code point above 255
  and is fixed by the number of fields filled.
\<close>

datatype status = Success | Error | Info

record field_info =
  ftype :: string
  fvalue :: string
  fpage :: nat

datatype result =
    Message status string
  | Downloaded string string nat
  | Parsed json json nat "string list"
  | Extracted string nat "field_info dict"
  | Generated nat nat
  | Filled string string nat string string
  | Processed json string string nat string string

fun status_of :: "result \<Rightarrow> status" where
  "status_of (Message s m) = s"
| "status_of r = Success"

text \<open>\<^verbatim>\<open>r.get("pdf_urls")\<close>, and \<^verbatim>\<open>r[key]\<close> for the keys that the orchestrator reads.\<close>

fun pdf_urls_get :: "result \<Rightarrow> string list option" where
  "pdf_urls_get (Parsed sender subject n urls) = Some urls"
| "pdf_urls_get r = None"

fun pdf_urls_item :: "result \<Rightarrow> exn + string list" where
  "pdf_urls_item (Parsed sender subject n urls) = Inr urls"
| "pdf_urls_item r = Inl (KeyError ''pdf_urls'')"

fun subject_item :: "result \<Rightarrow> exn + json" where
  "subject_item (Parsed sender subject n urls) = Inr subject"
| "subject_item r = Inl (KeyError ''subject'')"

fun filepath_item :: "result \<Rightarrow> exn + string" where
  "filepath_item (Downloaded m filepath n) = Inr filepath"
| "filepath_item (Extracted filepath n field_map) = Inr filepath"
| "filepath_item r = Inl (KeyError ''filepath'')"

fun num_fields_item :: "result \<Rightarrow> exn + nat" where
  "num_fields_item (Extracted filepath n field_map) = Inr n"
| "num_fields_item r = Inl (KeyError ''num_fields'')"

fun fields_item :: "result \<Rightarrow> exn + field_info dict" where
  "fields_item (Extracted filepath n field_map) = Inr field_map"
| "fields_item r = Inl (KeyError ''fields'')"

fun generated_values_item :: "result \<Rightarrow> exn + nat" where
  "generated_values_item (Generated values n) = Inr values"
| "generated_values_item r = Inl (KeyError ''generated_values'')"

fun output_path_item :: "result \<Rightarrow> exn + string" where
  "output_path_item (Filled m output_path n b64 instr) = Inr output_path"
| "output_path_item r = Inl (KeyError ''output_path'')"

fun fields_filled_item :: "result \<Rightarrow> exn + nat" where
  "fields_filled_item (Filled m output_path n b64 instr) = Inr n"
| "fields_filled_item (Generated values n) = Inr n"
| "fields_filled_item r = Inl (KeyError ''fields_filled'')"

fun pdf_base64_get :: "result \<Rightarrow> string" where
  "pdf_base64_get (Filled m output_path n b64 instr) = b64"
| "pdf_base64_get r = []"

fun download_instructions_get :: "result \<Rightarrow> string" where
  "download_instructions_get (Filled m output_path n b64 instr) = instr"
| "download_instructions_get r = []"

text \<open>\<^verbatim>\<open>xs[0]\<close> on a list.\<close>

definition first_item :: "'a list \<Rightarrow> exn + 'a" where
  "first_item xs = (case xs of [] \<Rightarrow> Inl IndexError | x # _ \<Rightarrow> Inr x)"

text \<open>The decimal text of a number, as an f-string prints it.\<close>

function str_nat :: "nat \<Rightarrow> string" where
  "str_nat n = (if n < 10 then [char_of (48 + n)] else str_nat (n div 10) @ [char_of (48 + n mod 10)])"
  by pat_completeness auto
termination
  by (relation "measure id") auto

section \<open>The operations\<close>

text \<open>
  Each operation takes the external capabilities and the world, and returns its result
  together with the world it leaves. Its \<^verbatim>\<open>except Exception\<close> clause turns every
  exception into a \<open>Message Error\<close> with the prefix of the operation.
\<close>

definition failed :: "string \<Rightarrow> exn \<Rightarrow> result" where
  "failed label e = Message Error (label @ str_exn e)"

subsection \<open>\<^verbatim>\<open>_download_pdf\<close>\<close>

text \<open>\<^verbatim>\<open>url.split("/")[-1]\<close>: what follows the last slash.\<close>

definition last_segment :: "string \<Rightarrow> string" where
  "last_segment url = rev (takeWhile (\<lambda>c. c \<noteq> CHR ''/'') (rev url))"

definition download_filepath :: "string \<Rightarrow> string" where
  "download_filepath url =
     (let filename = (if last_segment url \<noteq> [] then last_segment url else ''downloaded.pdf'');
          filename = (if \<not> endswith filename ''.pdf'' then filename @ ''.pdf'' else filename)
      in ''/tmp/mcp_pdfs/'' @ filename)"

definition download_pdf :: "env \<Rightarrow> string \<Rightarrow> world \<Rightarrow> result \<times> world" where
  "download_pdf env url w =
     (let w1 = log (HttpGet url) w in
      case external (http_content env url) of
        Inl e \<Rightarrow> (failed ''Failed to download PDF: '' e, w1)
      | Inr body \<Rightarrow>
          (let filepath = download_filepath url in
           case write_error env filepath of
             Some text \<Rightarrow> (failed ''Failed to download PDF: '' (Raised text), w1)
           | None \<Rightarrow>
               (Downloaded (''Downloaded PDF to '' @ filepath) filepath (size_bytes env body),
                (log (WriteFile filepath) w1)\<lparr>files := (files w1)(filepath \<mapsto> body)\<rparr>)))"

subsection \<open>\<^verbatim>\<open>_parse_email\<close>\<close>

text \<open>The loop over the parts: the parts still to visit and \<^verbatim>\<open>pdf_urls\<close> so far.\<close>

fun parts_loop :: "(json \<Rightarrow> string list) \<Rightarrow> json list \<Rightarrow> string list \<Rightarrow> exn + string list" where
  "parts_loop links [] pdf_urls = Inr pdf_urls"
| "parts_loop links (part # rest) pdf_urls =
     (case py_get part ''filename'' (JStr []) of
        Inl e \<Rightarrow> Inl e
      | Inr (JStr filename) \<Rightarrow>
          if endswith filename ''.pdf''
          then parts_loop links rest (pdf_urls @ links part)
          else parts_loop links rest pdf_urls
      | Inr other \<Rightarrow> Inl (AttributeError (type_name other) ''endswith''))"

definition parse_payload :: "(json \<Rightarrow> string list) \<Rightarrow> json \<Rightarrow> exn + result" where
  "parse_payload links email_data =
     and_then (py_get email_data ''sender'' (JObj [])) (\<lambda>sender.
     and_then (py_get email_data ''subject'' (JStr [])) (\<lambda>subject.
     and_then (py_get email_data ''payload'' (JObj [])) (\<lambda>payload.
     and_then (py_get payload ''parts'' (JArr [])) (\<lambda>parts.
     and_then (py_iter parts) (\<lambda>part_list.
     and_then (parts_loop links part_list []) (\<lambda>pdf_urls.
     and_then (py_get sender ''email'' (JStr [])) (\<lambda>email.
       Inr (Parsed email subject (length pdf_urls) pdf_urls))))))))"

definition parse_email :: "env \<Rightarrow> string \<Rightarrow> world \<Rightarrow> result \<times> world" where
  "parse_email env email_json_url w =
     (let w1 = log (HttpGet email_json_url) w in
      case and_then (external (http_json env email_json_url)) (parse_payload (drive_links env)) of
        Inl e \<Rightarrow> (failed ''Failed to parse email: '' e, w1)
      | Inr r \<Rightarrow> (r, w1))"

subsection \<open>\<^verbatim>\<open>_extract_form_fields\<close>\<close>

fun widgets_loop :: "widget list \<Rightarrow> nat \<Rightarrow> field_info dict \<Rightarrow> field_info dict" where
  "widgets_loop [] page_num field_map = field_map"
| "widgets_loop (wd # rest) page_num field_map =
     widgets_loop rest page_num
       (setitem field_map (field_name wd)
          \<lparr>ftype = field_type_string wd,
           fvalue = (if field_value wd \<noteq> [] then field_value wd else []),
           fpage = page_num\<rparr>)"

fun pages_loop :: "document \<Rightarrow> nat \<Rightarrow> field_info dict \<Rightarrow> field_info dict" where
  "pages_loop [] page_num field_map = field_map"
| "pages_loop (page # rest) page_num field_map =
     pages_loop rest (page_num + 1) (widgets_loop page page_num field_map)"

definition extract_form_fields :: "env \<Rightarrow> string \<Rightarrow> world \<Rightarrow> result \<times> world" where
  "extract_form_fields env pdf_path w =
     (let w1 = log (OpenPdf pdf_path) w in
      case pymupdf_open env w1 pdf_path of
        Inl e \<Rightarrow> (failed ''Failed to extract form fields: '' e, w1)
      | Inr doc \<Rightarrow>
          (let field_map = pages_loop doc 0 []
           in (Extracted pdf_path (length field_map) field_map, w1)))"

subsection \<open>\<^verbatim>\<open>_generate_form_values\<close>\<close>

text \<open>The decoded values are a new \<^verbatim>\<open>dict\<close> object; the result holds its reference.\<close>

definition generate_form_values :: "env \<Rightarrow> string list \<Rightarrow> world \<Rightarrow> result \<times> world" where
  "generate_form_values env field_names w =
     (let w1 = log (Generate field_names) w in
      case external (generate env field_names) of
        Inl e \<Rightarrow> (failed ''Failed to generate values: '' e, w1)
      | Inr vals \<Rightarrow>
          (let (values_ref, w2) = new_dict vals w1
           in (Generated values_ref (length vals), w2)))"

subsection \<open>\<^verbatim>\<open>_fill_pdf_form\<close>\<close>

text \<open>
  The commit loops: the widgets (pages) still to visit and \<^verbatim>\<open>fields_filled\<close> so
  far; they return the widgets (pages) as the loop leaves them and the final count.
  \<^verbatim>\<open>widget.field_value = str(value)\<close> followed by \<^verbatim>\<open>widget.update()\<close> is the
  capability \<open>update_widget\<close>: the PDF library decides what the field then holds, and an
  exception of \<^verbatim>\<open>update()\<close> ends the loops.
\<close>

fun fill_widgets ::
  "env \<Rightarrow> string dict \<Rightarrow> widget list \<Rightarrow> nat \<Rightarrow> exn + widget list \<times> nat" where
  "fill_widgets env processed_values [] fields_filled = Inr ([], fields_filled)"
| "fill_widgets env processed_values (wd # rest) fields_filled =
     (if has_key processed_values (field_name wd)
      then (case external (update_widget env wd (get_or processed_values (field_name wd) [])) of
              Inl e \<Rightarrow> Inl e
            | Inr stored \<Rightarrow>
                (case fill_widgets env processed_values rest (fields_filled + 1) of
                   Inl e \<Rightarrow> Inl e
                 | Inr (rest', n) \<Rightarrow> Inr (wd\<lparr>field_value := stored\<rparr> # rest', n)))
      else (case fill_widgets env processed_values rest fields_filled of
              Inl e \<Rightarrow> Inl e
            | Inr (rest', n) \<Rightarrow> Inr (wd # rest', n)))"

fun fill_pages :: "env \<Rightarrow> string dict \<Rightarrow> document \<Rightarrow> nat \<Rightarrow> exn + document \<times> nat" where
  "fill_pages env processed_values [] fields_filled = Inr ([], fields_filled)"
| "fill_pages env processed_values (page # rest) fields_filled =
     (case fill_widgets env processed_values page fields_filled of
        Inl e \<Rightarrow> Inl e
      | Inr (page', n) \<Rightarrow>
          (case fill_pages env processed_values rest n of
             Inl e \<Rightarrow> Inl e
           | Inr (rest', m) \<Rightarrow> Inr (page' # rest', m)))"

text \<open>
  \<open>field_values\<close> is the reference of the caller's \<^verbatim>\<open>dict\<close>.
  \<^verbatim>\<open>processed_values = {}\<close> makes a new object, and every pass writes through its
  reference. The document is changed in memory and saved under the derived path; the file at
  \<open>pdf_path\<close> is not written.
\<close>

definition fill_pdf_form :: "env \<Rightarrow> string \<Rightarrow> nat \<Rightarrow> world \<Rightarrow> result \<times> world" where
  "fill_pdf_form env pdf_path field_values w =
     (let w1 = log (OpenPdf pdf_path) w in
      case pymupdf_open env w1 pdf_path of
        Inl e \<Rightarrow> (failed ''Failed to fill PDF: '' e, w1)
      | Inr doc \<Rightarrow>
          (let (processed_values, w2) = new_dict [] w1;
               w3 = update_dict processed_values (month_loop (heap w2 field_values)) w2
           in case split_year (heap w3 processed_values) of
                Inl e \<Rightarrow> (failed ''Failed to fill PDF: '' e, w3)
              | Inr with_year \<Rightarrow>
                  (let w4 = update_dict processed_values (\<lambda>d. with_year) w3;
                       w5 = update_dict processed_values backfill w4;
                       w6 = update_dict processed_values clear_duplicate_seller w5
                   in case fill_pages env (heap w6 processed_values) doc 0 of
                        Inl e \<Rightarrow> (failed ''Failed to fill PDF: '' e, w6)
                      | Inr (doc', fields_filled) \<Rightarrow>
                          (case external (with_stem_filled env pdf_path) of
                             Inl e \<Rightarrow> (failed ''Failed to fill PDF: '' e, w6)
                           | Inr output_path \<Rightarrow>
                               (case write_error env output_path of
                                  Some text \<Rightarrow>
                                    (failed ''Failed to fill PDF: '' (Raised text), w6)
                                | None \<Rightarrow>
                                    (let w7 = (log (SavePdf output_path) w6)
                                                \<lparr>files := (files w6)(output_path \<mapsto> Pdf doc')\<rparr>;
                                         w8 = log (ReadFile output_path) w7
                                     in (Filled (''Filled '' @ str_nat fields_filled @ '' fields'')
                                           output_path fields_filled (b64encode env (Pdf doc'))
                                           ''Decode pdf_base64 from base64 and save as .pdf'',
                                         w8)))))))"

subsection \<open>\<^verbatim>\<open>_process_email_automation\<close>\<close>

text \<open>
  The body of the \<^verbatim>\<open>try\<close> block is a sequence of steps, each of which returns a
  value or raises, and changes the world.
\<close>

type_synonym 'a prog = "world \<Rightarrow> (exn + 'a) \<times> world"

definition ret :: "'a \<Rightarrow> 'a prog" where
  "ret x = (\<lambda>w. (Inr x, w))"

definition bind :: "'a prog \<Rightarrow> ('a \<Rightarrow> 'b prog) \<Rightarrow> 'b prog" where
  "bind m f = (\<lambda>w. case m w of (Inl e, w') \<Rightarrow> (Inl e, w') | (Inr x, w') \<Rightarrow> f x w')"

text \<open>A step without effect, and the call of an operation.\<close>

definition pure :: "exn + 'a \<Rightarrow> 'a prog" where
  "pure r = (\<lambda>w. (r, w))"

definition call :: "(world \<Rightarrow> result \<times> world) \<Rightarrow> result prog" where
  "call operation = (\<lambda>w. case operation w of (r, w') \<Rightarrow> (Inr r, w'))"

definition excluded_patterns :: "string list" where
  "excluded_patterns = [''Year-1'', ''Year-2'', ''Year-3'', ''Year-4'']"

text \<open>
  The names handed to value generation. \<^verbatim>\<open>fields[name]\<close> is read for names that
  come from \<^verbatim>\<open>fields.keys()\<close>, so the item is there.
\<close>

definition names_to_generate :: "field_info dict \<Rightarrow> string list" where
  "names_to_generate field_map =
     filter (\<lambda>name. (case get field_map name of
                        Some info \<Rightarrow> ftype info \<noteq> ''Button''
                      | None \<Rightarrow> False) \<and>
                     name \<notin> set excluded_patterns)
       (keys field_map)"

definition try_block :: "env \<Rightarrow> string \<Rightarrow> result prog" where
  "try_block env email_json_url =
     bind (call (parse_email env email_json_url)) (\<lambda>email_result.
     if status_of email_result \<noteq> Success \<or>
        pdf_urls_get email_result = None \<or> pdf_urls_get email_result = Some []
     then ret (Message Error ''No PDF found in email'')
     else
     bind (pure (and_then (pdf_urls_item email_result) first_item)) (\<lambda>pdf_url.
     bind (call (download_pdf env pdf_url)) (\<lambda>download_result.
     if status_of download_result \<noteq> Success then ret download_result
     else
     bind (pure (filepath_item download_result)) (\<lambda>pdf_path.
     bind (call (extract_form_fields env pdf_path)) (\<lambda>extract_result.
     if status_of extract_result \<noteq> Success then ret extract_result
     else
     bind (pure (num_fields_item extract_result)) (\<lambda>num_fields.
     if num_fields = 0 then ret (Message Info ''PDF has no fillable form fields'')
     else
     bind (pure (fields_item extract_result)) (\<lambda>field_map.
     bind (call (generate_form_values env (names_to_generate field_map))) (\<lambda>gen_result.
     if status_of gen_result \<noteq> Success then ret gen_result
     else
     bind (pure (generated_values_item gen_result)) (\<lambda>generated_values.
     bind (call (fill_pdf_form env pdf_path generated_values)) (\<lambda>fill_result.
     bind (pure (subject_item email_result)) (\<lambda>subject.
     bind (pure (output_path_item fill_result)) (\<lambda>filled_pdf.
     bind (pure (fields_filled_item fill_result)) (\<lambda>fields_filled.
       ret (Processed subject pdf_path filled_pdf fields_filled
              (pdf_base64_get fill_result) (download_instructions_get fill_result)))))))))))))))"

definition process_email_automation :: "env \<Rightarrow> string \<Rightarrow> world \<Rightarrow> result \<times> world" where
  "process_email_automation env email_json_url w =
     (case try_block env email_json_url w of
        (Inl e, w') \<Rightarrow> (failed ''Processing failed: '' e, w')
      | (Inr r, w') \<Rightarrow> (r, w'))"

section \<open>The commit step in the words of the specification\<close>

text \<open>
  The value map is committed through the PDF library. The library accepts the updates of a
  document when no update of a field whose name is a key of the map raises. A field whose name
  is a key of the map then holds what the library stores when the value of the map is assigned
  to it; any other field is left as it is. The fields updated are those whose names are keys
  of the map.
\<close>

definition update_accepted :: "env \<Rightarrow> string dict \<Rightarrow> widget \<Rightarrow> bool" where
  "update_accepted env values wd =
     (case get values (field_name wd) of
        None \<Rightarrow> True
      | Some v \<Rightarrow> (case update_widget env wd v of Inl reason \<Rightarrow> False | Inr stored \<Rightarrow> True))"

definition updates_accepted :: "env \<Rightarrow> string dict \<Rightarrow> document \<Rightarrow> bool" where
  "updates_accepted env values doc = list_all (update_accepted env values) (concat doc)"

definition commit_widget :: "env \<Rightarrow> string dict \<Rightarrow> widget \<Rightarrow> widget" where
  "commit_widget env values wd =
     (case get values (field_name wd) of
        Some v \<Rightarrow> (case update_widget env wd v of
                     Inr stored \<Rightarrow> wd\<lparr>field_value := stored\<rparr>
                   | Inl reason \<Rightarrow> wd)
      | None \<Rightarrow> wd)"

definition updated :: "string dict \<Rightarrow> document \<Rightarrow> widget list" where
  "updated values doc = filter (\<lambda>wd. field_name wd \<in> set (keys values)) (concat doc)"

section \<open>Example inputs\<close>

text \<open>
  A form of two pages, an email with one PDF part that carries one storage link, and
  capabilities that serve the email and answer the download of the link with \<open>served\<close>.
  With \<open>disk_full\<close> the filled document cannot be saved. Value generation fails when it is
  asked for no name. The PDF library of the example stores an assigned value as it is, except
  that, like the widget writer of PyMuPDF, it leaves a field as it was when the empty string is
  assigned and stores "Off" in a check box for any value but "Yes"; and it raises on a field
  of the type "Locked", to have an update that fails.
\<close>

definition example_doc :: document where
  "example_doc =
     [[\<lparr>field_name = ''Month'', field_type_string = ''Text'', field_value = []\<rparr>,
       \<lparr>field_name = ''Sign'', field_type_string = ''Button'', field_value = ''x''\<rparr>],
      [\<lparr>field_name = ''Buyer 2'', field_type_string = ''Text'', field_value = ''old''\<rparr>,
       \<lparr>field_name = ''Note'', field_type_string = ''Text'', field_value = ''keep''\<rparr>]]"

definition example_mail :: json where
  "example_mail =
     JObj [(''sender'', JObj [(''email'', JStr ''jane@example.org'')]),
           (''subject'', JStr ''Form''),
           (''payload'', JObj [(''parts'',
              JArr [JObj [(''filename'', JStr ''contract.pdf''),
                          (''body'', JStr ''https://drive.google.com/f/1'')]])])]"

definition example_update :: "widget \<Rightarrow> string \<Rightarrow> string + string" where
  "example_update wd v =
     (if field_type_string wd = ''Locked'' then Inl ''field is locked''
      else if field_type_string wd = ''CheckBox'' then Inr (if v = ''Yes'' then ''Yes'' else ''Off'')
      else if v = [] then Inr (field_value wd)
      else Inr v)"

definition example_env :: "bool \<Rightarrow> string + content \<Rightarrow> env" where
  "example_env disk_full served =
     \<lparr>http_json = (\<lambda>url. if url = ''https://mail.example.org/1.json''
                          then Inr example_mail else Inl ''timed out''),
      http_content = (\<lambda>url. if url = ''https://drive.google.com/f/1''
                             then served else Inl ''404 Not Found''),
      size_bytes = (\<lambda>body. 7),
      write_error = (\<lambda>path. if disk_full \<and> path = ''/tmp/mcp_pdfs/1_filled.pdf''
                             then Some ''No space left on device'' else None),
      open_error = (\<lambda>path. ''Failed to open file''),
      drive_links = (\<lambda>part. [''https://drive.google.com/f/1'']),
      generate = (\<lambda>names. if names = [] then Inl ''Request timed out''
                            else Inr [(''Month'', ''March''), (''Buyer 2'', ''Bob'')]),
      update_widget = example_update,
      with_stem_filled = (\<lambda>path. Inr ''/tmp/mcp_pdfs/1_filled.pdf''),
      b64encode = (\<lambda>body. ''JVBERi0='')\<rparr>"

text \<open>A form with a field that the example library refuses to update.\<close>

definition locked_doc :: document where
  "locked_doc =
     [[\<lparr>field_name = ''Month'', field_type_string = ''Locked'', field_value = []\<rparr>]]"

text \<open>
  A world without files, a world that holds the form and one value map, and the same world
  with the locked form in the place of the form.
\<close>

definition empty_world :: world where
  "empty_world = \<lparr>files = Map.empty, heap = (\<lambda>r. []), next_ref = 0, trace = []\<rparr>"

definition example_world :: world where
  "example_world =
     \<lparr>files = [''/tmp/mcp_pdfs/1.pdf'' \<mapsto> Pdf example_doc],
      heap = (\<lambda>r. [(''Month'', ''March''), (''Buyer 2'', ''Bob'')]),
      next_ref = 1,
      trace = []\<rparr>"

definition locked_world :: world where
  "locked_world = example_world\<lparr>files := [''/tmp/mcp_pdfs/1.pdf'' \<mapsto> Pdf locked_doc]\<rparr>"

section \<open>The email payload in the words of the specification\<close>

text \<open>
  The data model of the specification: an email payload has a sender, a subject string and an
  ordered sequence of parts inside its payload; a part has an optional filename. A part is a
  PDF attachment when its filename ends in ".pdf".
\<close>

definition part_shape :: "json \<Rightarrow> bool" where
  "part_shape part =
     (case part of
        JObj d \<Rightarrow> (case map_of d ''filename'' of
                     None \<Rightarrow> True
                   | Some (JStr name) \<Rightarrow> True
                   | Some other \<Rightarrow> False)
      | _ \<Rightarrow> False)"

definition required_structure :: "json \<Rightarrow> bool" where
  "required_structure email_data =
     (case email_data of
        JObj d \<Rightarrow>
          (case map_of d ''sender'' of Some (JObj s) \<Rightarrow> True | _ \<Rightarrow> False) \<and>
          (case map_of d ''subject'' of Some (JStr s) \<Rightarrow> True | _ \<Rightarrow> False) \<and>
          (case map_of d ''payload'' of
             Some (JObj p) \<Rightarrow>
               (case map_of p ''parts'' of
                  Some (JArr parts) \<Rightarrow> list_all part_shape parts
                | _ \<Rightarrow> False)
           | _ \<Rightarrow> False)
      | _ \<Rightarrow> False)"

definition is_pdf_part :: "json \<Rightarrow> bool" where
  "is_pdf_part part =
     (case part of
        JObj d \<Rightarrow> (case map_of d ''filename'' of
                     Some (JStr name) \<Rightarrow> suffix ''.pdf'' name
                   | _ \<Rightarrow> False)
      | _ \<Rightarrow> False)"

definition parts_of :: "json \<Rightarrow> json list" where
  "parts_of email_data =
     (case email_data of
        JObj d \<Rightarrow>
          (case map_of d ''payload'' of
             Some (JObj p) \<Rightarrow> (case map_of p ''parts'' of Some (JArr parts) \<Rightarrow> parts | _ \<Rightarrow> [])
           | _ \<Rightarrow> [])
      | _ \<Rightarrow> [])"

definition pdf_parts :: "json \<Rightarrow> json list" where
  "pdf_parts email_data = filter is_pdf_part (parts_of email_data)"

text \<open>
  The payloads without an element of the wrong shape: the top level is an object; "sender" and
  "payload", where present, are objects; "parts", where present, is a list of parts of the
  right shape, or an empty object or string (nothing to iterate). Nothing has to be present.
\<close>

definition parts_accepted :: "json \<Rightarrow> bool" where
  "parts_accepted parts =
     (case parts of
        JArr ps \<Rightarrow> list_all part_shape ps
      | JObj d \<Rightarrow> d = []
      | JStr s \<Rightarrow> s = []
      | _ \<Rightarrow> False)"

definition accepted :: "json \<Rightarrow> bool" where
  "accepted email_data =
     (case email_data of
        JObj d \<Rightarrow>
          (case map_of d ''sender'' of None \<Rightarrow> True | Some (JObj s) \<Rightarrow> True | Some other \<Rightarrow> False) \<and>
          (case map_of d ''payload'' of
             None \<Rightarrow> True
           | Some (JObj p) \<Rightarrow>
               (case map_of p ''parts'' of None \<Rightarrow> True | Some parts \<Rightarrow> parts_accepted parts)
           | Some other \<Rightarrow> False)
      | _ \<Rightarrow> False)"

section \<open>Properties of the dictionary operations\<close>

lemma get_setitem: "get (setitem d k v) k' = (if k' = k then Some v else get d k')"
  by (simp add: get_def setitem_def update_conv')

lemma keys_setitem:
  "keys (setitem d k v) = (if k \<in> set (keys d) then keys d else keys d @ [k])"
  by (simp add: keys_def setitem_def update_keys)

lemma setitem_new: "k \<notin> set (keys d) \<Longrightarrow> setitem d k v = d @ [(k, v)]"
  unfolding keys_def setitem_def by (induction d) auto

lemma has_key_iff: "has_key d k \<longleftrightarrow> k \<in> set (keys d)"
  by (simp add: has_key_def keys_def map_of_eq_None_iff)

lemma get_None_iff: "get d k = None \<longleftrightarrow> k \<notin> set (keys d)"
  by (simp add: get_def keys_def map_of_eq_None_iff)

lemma get_in_set: "well_formed d \<Longrightarrow> (k, v) \<in> set d \<Longrightarrow> get d k = Some v"
  by (simp add: well_formed_def get_def)

section \<open>Month normalization\<close>

lemma month_loop_append:
  "distinct (keys items) \<Longrightarrow> set (keys items) \<inter> set (keys pv) = {} \<Longrightarrow>
   month_loop items pv = pv @ map (\<lambda>(k, v). (k, month_value k v)) items"
proof (induction items arbitrary: pv)
  case Nil
  then show ?case by simp
next
  case (Cons a items)
  obtain key val where a: "a = (key, val)" by (cases a)
  from Cons.prems have new: "key \<notin> set (keys pv)" and d: "distinct (keys items)"
    and dis: "set (keys items) \<inter> set (keys (pv @ [(key, month_value key val)])) = {}"
    by (auto simp: a keys_def)
  show ?case
    using Cons.IH [OF d dis] by (simp add: a setitem_new [OF new])
qed

lemma normalize_months_map:
  "well_formed d \<Longrightarrow> normalize_months d = map (\<lambda>(k, v). (k, month_value k v)) d"
  using month_loop_append [of d "[]"] by (simp add: normalize_months_def well_formed_def keys_def)

lemma keys_map_values: "keys (map (\<lambda>(k, v). (k, f k v)) d) = keys d"
  by (induction d) (auto simp: keys_def)

lemma month_map_all:
  "list_all (\<lambda>i. get month_map (month_names ! i) = Some (two_digits (i + 1))) [0..<12]"
  by code_simp

lemma month_map_nth: "i < 12 \<Longrightarrow> get month_map (month_names ! i) = Some (two_digits (i + 1))"
  using month_map_all by (simp add: list_all_iff)

lemma has_key_month_map: "has_key month_map s \<longleftrightarrow> s \<in> set month_names"
  by (simp add: has_key_iff keys_def month_map_def month_names_def)

lemma month_codes_fixed: "list_all (\<lambda>(n, c). \<not> has_key month_map (lower c)) month_map"
  by code_simp

lemma month_value_idem: "month_value k (month_value k v) = month_value k v"
proof (cases "contains (lower k) ''month'' \<and> has_key month_map (lower v)")
  case True
  then obtain c where c: "get month_map (lower v) = Some c"
    by (auto simp: has_key_def get_def)
  then have "(lower v, c) \<in> set month_map"
    by (simp add: get_def map_of_SomeD)
  with month_codes_fixed have "\<not> has_key month_map (lower c)"
    by (auto simp: list_all_iff)
  moreover have "month_value k v = c"
    using True c by (simp add: month_value_def get_or_def get_def)
  ultimately show ?thesis by (simp add: month_value_def)
next
  case False
  then show ?thesis by (auto simp: month_value_def)
qed

lemma well_formed_map_values: "well_formed d \<Longrightarrow> well_formed (map (\<lambda>(k, v). (k, f k v)) d)"
  by (metis keys_def keys_map_values well_formed_def)

lemma normalize_months_idem:
  assumes "well_formed d"
  shows "normalize_months (normalize_months d) = normalize_months d"
proof -
  have "normalize_months (normalize_months d) =
        map (\<lambda>(k, v). (k, month_value k v)) (map (\<lambda>(k, v). (k, month_value k v)) d)"
    using assms by (simp add: normalize_months_map well_formed_map_values)
  also have "\<dots> = map (\<lambda>(k, v). (k, month_value k v)) d"
    by (induction d) (auto simp: month_value_idem)
  finally show ?thesis using assms by (simp add: normalize_months_map)
qed

text \<open>
  Claim C5. On a value map (distinct names), month normalization keeps the names and their
  order. A pair whose name contains "month" (in any case) and whose value, lower-cased, is the
  \<open>i\<close>-th full English month name gets the two-digit number of that month ("01" for
  january up to "12" for december); every other pair keeps its value. Normalizing a second
  time changes nothing.
\<close>

theorem month_normalization:
  assumes "well_formed d"
  shows "keys (normalize_months d) = keys d \<and>
    (\<forall>k v i. (k, v) \<in> set d \<and> contains (lower k) ''month'' \<and> i < 12 \<and>
        lower v = month_names ! i \<longrightarrow>
      get (normalize_months d) k = Some (two_digits (i + 1))) \<and>
    (\<forall>k v. (k, v) \<in> set d \<and> \<not> (contains (lower k) ''month'' \<and> lower v \<in> set month_names) \<longrightarrow>
      get (normalize_months d) k = Some v) \<and>
    normalize_months (normalize_months d) = normalize_months d"
proof (intro conjI allI impI)
  show "keys (normalize_months d) = keys d"
    using assms by (simp add: normalize_months_map keys_map_values)
next
  fix k v i
  assume h: "(k, v) \<in> set d \<and> contains (lower k) ''month'' \<and> i < 12 \<and> lower v = month_names ! i"
  then have "(k, month_value k v) \<in> set (normalize_months d)"
    using assms by (force simp: normalize_months_map)
  moreover have "well_formed (normalize_months d)"
    using assms by (simp add: normalize_months_map well_formed_map_values)
  ultimately have "get (normalize_months d) k = Some (month_value k v)"
    by (rule get_in_set [rotated])
  moreover have "month_value k v = two_digits (i + 1)"
    using h month_map_nth [of i]
    by (simp add: month_value_def has_key_def get_or_def get_def)
  ultimately show "get (normalize_months d) k = Some (two_digits (i + 1))" by simp
next
  fix k v
  assume h: "(k, v) \<in> set d \<and> \<not> (contains (lower k) ''month'' \<and> lower v \<in> set month_names)"
  then have "(k, month_value k v) \<in> set (normalize_months d)"
    using assms by (force simp: normalize_months_map)
  moreover have "well_formed (normalize_months d)"
    using assms by (simp add: normalize_months_map well_formed_map_values)
  ultimately have "get (normalize_months d) k = Some (month_value k v)"
    by (rule get_in_set [rotated])
  moreover have "month_value k v = v"
    using h by (auto simp: month_value_def has_key_month_map)
  ultimately show "get (normalize_months d) k = Some v" by simp
next
  show "normalize_months (normalize_months d) = normalize_months d"
    using assms by (rule normalize_months_idem)
qed

theorem month_normalization_witness:
  "well_formed [(''Month'', ''March''), (''Birth month'', ''03''), (''Name'', ''May'')] \<and>
   get (normalize_months [(''Month'', ''March''), (''Birth month'', ''03''), (''Name'', ''May'')])
     ''Month'' = Some ''03'' \<and>
   get (normalize_months [(''Month'', ''March''), (''Birth month'', ''03''), (''Name'', ''May'')])
     ''Birth month'' = Some ''03'' \<and>
   get (normalize_months [(''Month'', ''March''), (''Birth month'', ''03''), (''Name'', ''May'')])
     ''Name'' = Some ''May''"
proof -
  let ?d = "[(''Month'', ''March''), (''Birth month'', ''03''), (''Name'', ''May'')]"
  have wf: "well_formed ?d" by code_simp
  note t = month_normalization [OF wf]
  have a: "(''Month'', ''March'') \<in> set ?d \<and> contains (lower ''Month'') ''month'' \<and>
      (2::nat) < 12 \<and> lower ''March'' = month_names ! 2"
    by code_simp
  have b: "(''Birth month'', ''03'') \<in> set ?d \<and>
      \<not> (contains (lower ''Birth month'') ''month'' \<and> lower ''03'' \<in> set month_names)"
    by code_simp
  have c: "(''Name'', ''May'') \<in> set ?d \<and>
      \<not> (contains (lower ''Name'') ''month'' \<and> lower ''May'' \<in> set month_names)"
    by code_simp
  have "get (normalize_months ?d) ''Month'' = Some (two_digits (2 + 1))"
    using t a by blast
  moreover have "two_digits (2 + 1) = ''03''" by code_simp
  moreover have "get (normalize_months ?d) ''Birth month'' = Some ''03''"
    using t b by blast
  moreover have "get (normalize_months ?d) ''Name'' = Some ''May''"
    using t c by blast
  ultimately show ?thesis using wf by simp
qed

section \<open>Year decomposition\<close>

lemma year_scan_filter:
  "year_scan d cy =
     (case filter (\<lambda>(k, v). (sublist ''yr'' (lower k) \<or> sublist ''year'' (lower k)) \<and>
                              length v = 4 \<and> isdigit v) d of
        [] \<Rightarrow> cy
      | (k, v) # _ \<Rightarrow> v)"
  by (induction d cy rule: year_scan.induct) (auto simp: year_key_def contains_def)

lemma year_scan_canonical: "year_scan d ''2025'' = canonical_year d"
  by (simp add: year_scan_filter canonical_year_def)

lemma length_canonical_year: "length (canonical_year d) = 4"
proof (cases "filter (\<lambda>(k, v). (sublist ''yr'' (lower k) \<or> sublist ''year'' (lower k)) \<and>
                              length v = 4 \<and> isdigit v) d")
  case Nil
  then show ?thesis by (simp add: canonical_year_def)
next
  case (Cons a rest)
  then have "a \<in> set (filter (\<lambda>(k, v). (sublist ''yr'' (lower k) \<or> sublist ''year'' (lower k)) \<and>
                              length v = 4 \<and> isdigit v) d)"
    by simp
  then have "length (snd a) = 4" by auto
  with Cons show ?thesis by (cases a) (simp add: canonical_year_def)
qed

lemma split_year_result:
  "split_year pv =
     Inr (setitem (setitem (setitem (setitem pv
            ''Year-1'' [canonical_year pv ! 0]) ''Year-2'' [canonical_year pv ! 1])
            ''Year-3'' [canonical_year pv ! 2]) ''Year-4'' [canonical_year pv ! 3])"
proof -
  have "\<And>i. i < 4 \<Longrightarrow> char_at (canonical_year pv) i = Inr [canonical_year pv ! i]"
    by (simp add: char_at_def length_canonical_year)
  then show ?thesis
    by (simp add: split_year_def year_scan_canonical and_then_def Let_def)
qed

lemma canonical_year_Cons:
  "canonical_year ((k, v) # d) =
     (if (sublist ''yr'' (lower k) \<or> sublist ''year'' (lower k)) \<and> length v = 4 \<and> isdigit v
      then v else canonical_year d)"
  by (auto simp: canonical_year_def)

lemma lower_digit_char: "isdigit_char c \<Longrightarrow> lower_char c = c"
  by (auto simp: isdigit_char_def lower_char_def Let_def)

lemma lower_digits: "isdigit v \<Longrightarrow> lower v = v"
  by (simp add: isdigit_def lower_def list_all_iff lower_digit_char map_idI)

lemma month_names_not_digits: "list_all (\<lambda>n. \<not> isdigit n) month_names"
  by code_simp

lemma month_value_digits: "isdigit v \<Longrightarrow> month_value k v = v"
proof -
  assume v: "isdigit v"
  have "\<not> has_key month_map (lower v)"
    using v month_names_not_digits
    by (auto simp: has_key_month_map lower_digits list_all_iff)
  then show ?thesis by (simp add: month_value_def)
qed

lemma month_codes_length: "list_all (\<lambda>(n, c). length c = 2) month_map"
  by code_simp

lemma month_value_changed: "month_value k v \<noteq> v \<Longrightarrow> length (month_value k v) = 2"
proof -
  assume ch: "month_value k v \<noteq> v"
  then have hk: "has_key month_map (lower v)"
    by (auto simp: month_value_def split: if_splits)
  then obtain c where c: "get month_map (lower v) = Some c"
    by (auto simp: has_key_def get_def)
  then have "(lower v, c) \<in> set month_map"
    by (simp add: get_def map_of_SomeD)
  with month_codes_length have "length c = 2"
    by (auto simp: list_all_iff)
  moreover have "month_value k v = c"
    using ch c by (auto simp: month_value_def get_or_def get_def split: if_splits)
  ultimately show ?thesis by simp
qed

lemma month_value_year:
  "length (month_value k v) = 4 \<and> isdigit (month_value k v) \<longleftrightarrow> length v = 4 \<and> isdigit v"
proof (cases "month_value k v = v")
  case True
  then show ?thesis by simp
next
  case False
  then have "length (month_value k v) = 2" by (rule month_value_changed)
  moreover have "\<not> isdigit v" using False month_value_digits by blast
  ultimately show ?thesis by simp
qed

lemma canonical_year_months:
  "canonical_year (map (\<lambda>(k, v). (k, month_value k v)) d) = canonical_year d"
proof (induction d)
  case Nil
  then show ?case by simp
next
  case (Cons a d)
  obtain k v where a: "a = (k, v)" by (cases a)
  show ?case
    using Cons.IH month_value_year [of k v] month_value_digits [of v k]
    by (auto simp: a canonical_year_Cons)
qed

text \<open>
  Claim C2. For every value map the year split returns (it raises no index error). The
  canonical year is the first value, in map order, that is a four-character string of digits
  under a name containing "yr" or "year" in any case, and "2025" when there is none; it has
  four characters. After the split the names Year-1, Year-2, Year-3 and Year-4 hold the first,
  second, third and fourth character of the canonical year, whatever they held before, and
  every other name holds what it held. The month pass that runs before the split does not
  change the canonical year, so the year is the one of the caller's map.
\<close>

theorem year_decomposition:
  "(\<exists>pv'. split_year pv = Inr pv' \<and> length (canonical_year pv) = 4 \<and>
     get pv' ''Year-1'' = Some [canonical_year pv ! 0] \<and>
     get pv' ''Year-2'' = Some [canonical_year pv ! 1] \<and>
     get pv' ''Year-3'' = Some [canonical_year pv ! 2] \<and>
     get pv' ''Year-4'' = Some [canonical_year pv ! 3] \<and>
     (\<forall>k. k \<notin> {''Year-1'', ''Year-2'', ''Year-3'', ''Year-4''} \<longrightarrow> get pv' k = get pv k)) \<and>
   (well_formed pv \<longrightarrow> canonical_year (normalize_months pv) = canonical_year pv)"
  by (simp add: split_year_result length_canonical_year get_setitem normalize_months_map
      canonical_year_months)

theorem year_decomposition_witness:
  "well_formed [(''Tax Year'', ''1999''), (''Day'', ''07'')] \<and>
   canonical_year [(''Tax Year'', ''1999''), (''Day'', ''07'')] = ''1999'' \<and>
   (\<exists>pv'. split_year [(''Tax Year'', ''1999''), (''Day'', ''07'')] = Inr pv' \<and>
      get pv' ''Year-1'' = Some ''1'' \<and> get pv' ''Year-2'' = Some ''9'' \<and>
      get pv' ''Year-3'' = Some ''9'' \<and> get pv' ''Year-4'' = Some ''9'' \<and>
      get pv' ''Day'' = Some ''07'') \<and>
   canonical_year (normalize_months [(''Tax Year'', ''1999''), (''Day'', ''07'')]) = ''1999''"
proof -
  define pv where "pv = [(''Tax Year'', ''1999''), (''Day'', ''07'')]"
  have wf: "well_formed pv" unfolding pv_def by code_simp
  have cy: "canonical_year pv = ''1999''" unfolding pv_def by code_simp
  have day: "''Day'' \<notin> {''Year-1'', ''Year-2'', ''Year-3'', ''Year-4''}" by simp
  have old: "get pv ''Day'' = Some ''07''" unfolding pv_def by code_simp
  note t = year_decomposition [of pv]
  from t have months: "well_formed pv \<longrightarrow> canonical_year (normalize_months pv) = canonical_year pv"
    by (rule conjunct2)
  from t have "\<exists>pv'. split_year pv = Inr pv' \<and> length (canonical_year pv) = 4 \<and>
     get pv' ''Year-1'' = Some [canonical_year pv ! 0] \<and>
     get pv' ''Year-2'' = Some [canonical_year pv ! 1] \<and>
     get pv' ''Year-3'' = Some [canonical_year pv ! 2] \<and>
     get pv' ''Year-4'' = Some [canonical_year pv ! 3] \<and>
     (\<forall>k. k \<notin> {''Year-1'', ''Year-2'', ''Year-3'', ''Year-4''} \<longrightarrow> get pv' k = get pv k)"
    by (rule conjunct1)
  then obtain pv' where p: "split_year pv = Inr pv' \<and> length (canonical_year pv) = 4 \<and>
     get pv' ''Year-1'' = Some [canonical_year pv ! 0] \<and>
     get pv' ''Year-2'' = Some [canonical_year pv ! 1] \<and>
     get pv' ''Year-3'' = Some [canonical_year pv ! 2] \<and>
     get pv' ''Year-4'' = Some [canonical_year pv ! 3] \<and>
     (\<forall>k. k \<notin> {''Year-1'', ''Year-2'', ''Year-3'', ''Year-4''} \<longrightarrow> get pv' k = get pv k)"
    ..
  have d: "get pv' ''Day'' = get pv ''Day''"
    using p day by (elim conjE allE [of _ "''Day''"]) (rule mp)
  have digits: "[''1999'' ! 0] = ''1''" "[''1999'' ! 1] = ''9''" "[''1999'' ! 2] = ''9''"
    "[''1999'' ! 3] = ''9''"
    by simp_all
  have "split_year pv = Inr pv' \<and>
      get pv' ''Year-1'' = Some ''1'' \<and> get pv' ''Year-2'' = Some ''9'' \<and>
      get pv' ''Year-3'' = Some ''9'' \<and> get pv' ''Year-4'' = Some ''9'' \<and>
      get pv' ''Day'' = Some ''07''"
    using p unfolding cy digits d old by (elim conjE) (intro conjI; (assumption | rule refl))
  then have "\<exists>pv'. split_year pv = Inr pv' \<and>
      get pv' ''Year-1'' = Some ''1'' \<and> get pv' ''Year-2'' = Some ''9'' \<and>
      get pv' ''Year-3'' = Some ''9'' \<and> get pv' ''Year-4'' = Some ''9'' \<and>
      get pv' ''Day'' = Some ''07''"
    by (rule exI [where x = pv'])
  moreover have "canonical_year (normalize_months pv) = ''1999''"
    using months wf cy by (simp only:)
  ultimately show ?thesis using wf cy unfolding pv_def by (intro conjI)
qed

section \<open>Default backfill\<close>

lemma not_get_iff: "\<not> has_key pv f \<or> not_get pv f \<longleftrightarrow> get pv f = None \<or> get pv f = Some []"
  by (auto simp: has_key_def not_get_def get_def split: option.splits)

lemma get_Cons: "get ((k, v) # d) f = (if f = k then Some v else get d f)"
  by (simp add: get_def)

lemma backfill_loop_get:
  "distinct (keys tbl) \<Longrightarrow>
   get (backfill_loop tbl pv) f =
     (case get tbl f of
        None \<Rightarrow> get pv f
      | Some dv \<Rightarrow> if get pv f = None \<or> get pv f = Some [] then Some dv else get pv f)"
proof (induction tbl pv rule: backfill_loop.induct)
  case (1 pv)
  then show ?case by (simp add: get_def)
next
  case (2 field default_value rest pv)
  define pv1 where "pv1 = (if \<not> has_key pv field \<or> not_get pv field
              then setitem pv field default_value else pv)"
  from "2.prems" have d: "distinct (keys rest)" and new: "field \<notin> set (keys rest)"
    by (simp_all add: keys_def)
  have rest_None: "get rest field = None"
    using new by (simp add: get_None_iff)
  have step: "get pv1 f =
      (if f = field \<and> (get pv f = None \<or> get pv f = Some []) then Some default_value
       else get pv f)"
    using not_get_iff [of pv field] by (auto simp: pv1_def get_setitem)
  have "get (backfill_loop ((field, default_value) # rest) pv) f = get (backfill_loop rest pv1) f"
    by (simp add: pv1_def)
  also have "\<dots> =
      (case get rest f of
         None \<Rightarrow> get pv1 f
       | Some dv \<Rightarrow> if get pv1 f = None \<or> get pv1 f = Some [] then Some dv else get pv1 f)"
    unfolding pv1_def by (rule "2.IH" [OF d])
  also have "\<dots> =
      (case get ((field, default_value) # rest) f of
         None \<Rightarrow> get pv f
       | Some dv \<Rightarrow> if get pv f = None \<or> get pv f = Some [] then Some dv else get pv f)"
  proof (cases "f = field")
    case True
    then show ?thesis using rest_None step by (simp add: get_Cons)
  next
    case False
    with step have eq: "get pv1 f = get pv f" by simp
    have "get ((field, default_value) # rest) f = get rest f"
      using False by (simp add: get_Cons)
    then show ?thesis by (simp only: eq)
  qed
  finally show ?case .
qed

lemma distinct_defaults: "distinct (keys defaults)"
  by (simp add: defaults_def keys_def)

text \<open>
  Claim C4. The default table has the names Month, Day, Seller State, Buyer State, Sell zip,
  Buyer zip, Sell date 1 and Sell date 2. For every value map and every pair of the table, the
  map after the backfill holds the default under that name if and only if the name was absent
  or held the empty string before; a present, non-empty value stays. Names outside the table
  are not touched.
\<close>

theorem default_backfill:
  "keys defaults = [''Month'', ''Day'', ''Seller State'', ''Buyer State'', ''Sell zip'',
      ''Buyer zip'', ''Sell date 1'', ''Sell date 2''] \<and>
   (\<forall>(f, dv) \<in> set defaults.
      get (backfill pv) f =
        (if get pv f = None \<or> get pv f = Some [] then Some dv else get pv f)) \<and>
   (\<forall>f. f \<notin> set (keys defaults) \<longrightarrow> get (backfill pv) f = get pv f)"
proof (intro conjI ballI allI impI)
  show "keys defaults = [''Month'', ''Day'', ''Seller State'', ''Buyer State'', ''Sell zip'',
      ''Buyer zip'', ''Sell date 1'', ''Sell date 2'']"
    by (simp add: defaults_def keys_def)
next
  fix x assume x: "x \<in> set defaults"
  obtain f dv where fdv: "x = (f, dv)" by (cases x)
  have "well_formed defaults"
    using distinct_defaults by (simp add: well_formed_def keys_def)
  then have "get defaults f = Some dv"
    using x fdv by (simp add: get_in_set)
  then show "case x of (f, dv) \<Rightarrow> get (backfill pv) f =
        (if get pv f = None \<or> get pv f = Some [] then Some dv else get pv f)"
    using backfill_loop_get [OF distinct_defaults, of pv f] by (simp add: fdv backfill_def)
next
  fix f assume "f \<notin> set (keys defaults)"
  then have "get defaults f = None" by (simp add: get_None_iff)
  then show "get (backfill pv) f = get pv f"
    using backfill_loop_get [OF distinct_defaults, of pv f] by (simp add: backfill_def)
qed

theorem default_backfill_witness:
  "get (backfill [(''Day'', ''07''), (''Month'', [])]) ''Day'' = Some ''07'' \<and>
   get (backfill [(''Day'', ''07''), (''Month'', [])]) ''Month'' = Some ''03'' \<and>
   get (backfill [(''Day'', ''07''), (''Month'', [])]) ''Sell zip'' = Some ''90210'' \<and>
   get (backfill [(''Day'', ''07''), (''Month'', [])]) ''Name'' = None"
proof -
  let ?pv = "[(''Day'', ''07''), (''Month'', [])]"
  note t = default_backfill [of ?pv]
  have tbl: "(''Day'', ''15'') \<in> set defaults" "(''Month'', ''03'') \<in> set defaults"
    "(''Sell zip'', ''90210'') \<in> set defaults" "''Name'' \<notin> set (keys defaults)"
    by (simp_all add: defaults_def keys_def)
  have old: "get ?pv ''Day'' = Some ''07''" "get ?pv ''Month'' = Some []"
    "get ?pv ''Sell zip'' = None" "get ?pv ''Name'' = None"
    by (simp_all add: get_def)
  have "get (backfill ?pv) ''Day'' =
      (if get ?pv ''Day'' = None \<or> get ?pv ''Day'' = Some [] then Some ''15''
       else get ?pv ''Day'')"
    using t tbl(1) by blast
  moreover have "get (backfill ?pv) ''Month'' =
      (if get ?pv ''Month'' = None \<or> get ?pv ''Month'' = Some [] then Some ''03''
       else get ?pv ''Month'')"
    using t tbl(2) by blast
  moreover have "get (backfill ?pv) ''Sell zip'' =
      (if get ?pv ''Sell zip'' = None \<or> get ?pv ''Sell zip'' = Some [] then Some ''90210''
       else get ?pv ''Sell zip'')"
    using t tbl(3) by blast
  moreover have "get (backfill ?pv) ''Name'' = get ?pv ''Name''"
    using t tbl(4) by blast
  ultimately show ?thesis by (simp add: old)
qed

section \<open>Duplicate seller row\<close>

lemma clear_loop_get:
  "get (clear_loop ks pv) k = (if k \<in> set ks \<and> endswith k '' 2'' then Some [] else get pv k)"
  by (induction ks pv rule: clear_loop.induct) (auto simp: get_setitem)

lemma clear_loop_keys: "set ks \<subseteq> set (keys pv) \<Longrightarrow> keys (clear_loop ks pv) = keys pv"
  by (induction ks pv rule: clear_loop.induct) (auto simp: keys_setitem)

text \<open>
  Claim C3. When the second seller name (the value under "Seller print name 2", empty when
  absent) is empty or equals the first seller name (the value under "Print seller's name", or
  the one under "Seller print name 1" when that is absent or empty), the rule keeps the names
  of the map and, for every name of the map, stores the empty string if the name ends in " 2"
  and keeps the value otherwise. When it is neither empty nor equal, the map is returned as it
  is.
\<close>

theorem duplicate_row_suppression:
  "(second_seller pv = [] \<or> second_seller pv = first_seller pv \<longrightarrow>
      keys (clear_duplicate_seller pv) = keys pv \<and>
      (\<forall>k \<in> set (keys pv).
         get (clear_duplicate_seller pv) k = (if suffix '' 2'' k then Some [] else get pv k))) \<and>
   (\<not> (second_seller pv = [] \<or> second_seller pv = first_seller pv) \<longrightarrow>
      clear_duplicate_seller pv = pv)"
  by (simp add: clear_duplicate_seller_def clear_loop_get clear_loop_keys endswith_def)

theorem duplicate_row_suppression_witness:
  "second_seller [(primary_key, ''Jane Doe''), (''Buyer 2'', ''Bob'')] = [] \<and>
   get (clear_duplicate_seller [(primary_key, ''Jane Doe''), (''Buyer 2'', ''Bob'')]) ''Buyer 2''
     = Some [] \<and>
   get (clear_duplicate_seller [(primary_key, ''Jane Doe''), (''Buyer 2'', ''Bob'')]) primary_key
     = Some ''Jane Doe'' \<and>
   second_seller [(primary_key, ''Jane''), (''Seller print name 2'', ''Al'')] = ''Al'' \<and>
   first_seller [(primary_key, ''Jane''), (''Seller print name 2'', ''Al'')] = ''Jane'' \<and>
   clear_duplicate_seller [(primary_key, ''Jane''), (''Seller print name 2'', ''Al'')] =
     [(primary_key, ''Jane''), (''Seller print name 2'', ''Al'')]"
proof -
  define pv where "pv = [(primary_key, ''Jane Doe''), (''Buyer 2'', ''Bob'')]"
  define pw where "pw = [(primary_key, ''Jane''), (''Seller print name 2'', ''Al'')]"
  have s1: "second_seller pv = []" unfolding pv_def by code_simp
  have k1: "''Buyer 2'' \<in> set (keys pv)" "primary_key \<in> set (keys pv)"
    unfolding pv_def by (simp_all add: keys_def)
  have e1: "suffix '' 2'' ''Buyer 2''" "\<not> suffix '' 2'' primary_key" by code_simp+
  have o1: "get pv primary_key = Some ''Jane Doe''" unfolding pv_def by (simp add: get_def)
  have s2: "second_seller pw = ''Al''" unfolding pw_def by code_simp
  have f2: "first_seller pw = ''Jane''" unfolding pw_def by code_simp
  from duplicate_row_suppression [of pv] s1
  have all: "\<forall>k \<in> set (keys pv).
      get (clear_duplicate_seller pv) k = (if suffix '' 2'' k then Some [] else get pv k)"
    by (elim conjE) simp
  have a: "get (clear_duplicate_seller pv) ''Buyer 2'' = Some []"
    using bspec [OF all k1(1)] e1(1) by (simp only: if_True)
  have b: "get (clear_duplicate_seller pv) primary_key = Some ''Jane Doe''"
    using bspec [OF all k1(2)] e1(2) o1 by (simp only: if_False)
  have ne: "\<not> (second_seller pw = [] \<or> second_seller pw = first_seller pw)"
    unfolding s2 f2 by simp
  from duplicate_row_suppression [of pw] ne have c: "clear_duplicate_seller pw = pw"
    by (elim conjE) (rule mp)
  show ?thesis
    using s1 a b s2 f2 c unfolding pv_def pw_def by (intro conjI)
qed

section \<open>Filling a form\<close>

lemma fill_widgets_accepted:
  "list_all (update_accepted env pv) ws \<Longrightarrow>
   fill_widgets env pv ws n =
     Inr (map (commit_widget env pv) ws,
          n + length (filter (\<lambda>wd. field_name wd \<in> set (keys pv)) ws))"
proof (induction ws arbitrary: n)
  case Nil
  then show ?case by simp
next
  case (Cons wd ws)
  then have rest: "list_all (update_accepted env pv) ws" and this: "update_accepted env pv wd"
    by simp_all
  show ?case
  proof (cases "map_of pv (field_name wd)")
    case None
    then have "\<not> has_key pv (field_name wd)" "field_name wd \<notin> set (keys pv)"
      by (simp_all add: has_key_def get_None_iff [symmetric] get_def)
    then show ?thesis
      using None by (simp add: Cons.IH [OF rest] commit_widget_def get_def)
  next
    case (Some v)
    then have k: "has_key pv (field_name wd)" "field_name wd \<in> set (keys pv)"
      by (simp_all add: has_key_def has_key_iff [symmetric])
    from this Some obtain stored where "update_widget env wd v = Inr stored"
      using \<open>update_accepted env pv wd\<close>
      by (auto simp: update_accepted_def get_def split: sum.splits)
    then show ?thesis
      using Some k
      by (simp add: Cons.IH [OF rest] commit_widget_def get_def get_or_def external_def)
  qed
qed

lemma fill_widgets_refused:
  "\<not> list_all (update_accepted env pv) ws \<Longrightarrow>
   \<exists>reason. fill_widgets env pv ws n = Inl (Raised reason)"
proof (induction ws arbitrary: n)
  case Nil
  then show ?case by simp
next
  case (Cons wd ws)
  show ?case
  proof (cases "update_accepted env pv wd")
    case True
    with Cons.prems have "\<not> list_all (update_accepted env pv) ws" by simp
    then have "\<And>n. \<exists>reason. fill_widgets env pv ws n = Inl (Raised reason)"
      by (rule Cons.IH)
    then obtain r1 r2 where
      "fill_widgets env pv ws n = Inl (Raised r1)"
      "fill_widgets env pv ws (n + 1) = Inl (Raised r2)"
      by blast
    then show ?thesis
      by (auto simp: external_def split: sum.splits)
  next
    case False
    then obtain v reason where "map_of pv (field_name wd) = Some v"
      and "update_widget env wd v = Inl reason"
      by (auto simp: update_accepted_def get_def split: option.splits sum.splits)
    then show ?thesis
      by (simp add: has_key_def get_or_def external_def)
  qed
qed

lemma fill_pages_accepted:
  "updates_accepted env pv doc \<Longrightarrow>
   fill_pages env pv doc n =
     Inr (map (map (commit_widget env pv)) doc, n + length (updated pv doc))"
  by (induction doc arbitrary: n)
    (simp_all add: fill_widgets_accepted updates_accepted_def updated_def)

lemma fill_pages_refused:
  "\<not> updates_accepted env pv doc \<Longrightarrow> \<exists>reason. fill_pages env pv doc n = Inl (Raised reason)"
proof (induction doc arbitrary: n)
  case Nil
  then show ?case by (simp add: updates_accepted_def)
next
  case (Cons page doc)
  show ?case
  proof (cases "list_all (update_accepted env pv) page")
    case True
    with Cons.prems have "\<not> updates_accepted env pv doc"
      by (simp add: updates_accepted_def)
    then have "\<And>n. \<exists>reason. fill_pages env pv doc n = Inl (Raised reason)"
      by (rule Cons.IH)
    then obtain reason where
      "fill_pages env pv doc
         (n + length (filter (\<lambda>wd. field_name wd \<in> set (keys pv)) page)) = Inl (Raised reason)"
      by blast
    then show ?thesis
      using True by (simp add: fill_widgets_accepted)
  next
    case False
    then obtain reason where "fill_widgets env pv page n = Inl (Raised reason)"
      using fill_widgets_refused by blast
    then show ?thesis by simp
  qed
qed

lemma normalize_values_result:
  "normalize_values d =
     Inr (clear_duplicate_seller (backfill
       (setitem (setitem (setitem (setitem (normalize_months d)
          ''Year-1'' [canonical_year (normalize_months d) ! 0])
          ''Year-2'' [canonical_year (normalize_months d) ! 1])
          ''Year-3'' [canonical_year (normalize_months d) ! 2])
          ''Year-4'' [canonical_year (normalize_months d) ! 3])))"
  by (simp add: normalize_values_def split_year_result and_then_def)

lemma normalize_values_total: "\<exists>pv. normalize_values d = Inr pv"
  by (simp add: normalize_values_result)

lemma fill_pdf_form_prepared:
  assumes ref: "fv < next_ref w"
    and stored: "files w path = Some (Pdf doc)"
    and pv: "normalize_values (heap w fv) = Inr pv"
  shows "fill_pdf_form env path fv w =
     (case fill_pages env pv doc 0 of
        Inl e \<Rightarrow>
          (failed ''Failed to fill PDF: '' e,
           w\<lparr>heap := (heap w)(next_ref w := pv), next_ref := Suc (next_ref w),
             trace := trace w @ [OpenPdf path]\<rparr>)
      | Inr (doc', fields_filled) \<Rightarrow>
          (case external (with_stem_filled env path) of
             Inl e \<Rightarrow>
               (failed ''Failed to fill PDF: '' e,
                w\<lparr>heap := (heap w)(next_ref w := pv), next_ref := Suc (next_ref w),
                  trace := trace w @ [OpenPdf path]\<rparr>)
           | Inr output_path \<Rightarrow>
               (case write_error env output_path of
                  Some text \<Rightarrow>
                    (failed ''Failed to fill PDF: '' (Raised text),
                     w\<lparr>heap := (heap w)(next_ref w := pv), next_ref := Suc (next_ref w),
                       trace := trace w @ [OpenPdf path]\<rparr>)
                | None \<Rightarrow>
                    (Filled (''Filled '' @ str_nat fields_filled @ '' fields'')
                       output_path fields_filled (b64encode env (Pdf doc'))
                       ''Decode pdf_base64 from base64 and save as .pdf'',
                     w\<lparr>files := (files w)(output_path \<mapsto> Pdf doc'),
                       heap := (heap w)(next_ref w := pv), next_ref := Suc (next_ref w),
                       trace := trace w @ [OpenPdf path, SavePdf output_path,
                         ReadFile output_path]\<rparr>))))"
proof -
  have neq: "fv \<noteq> next_ref w" using ref by simp
  have opened: "pymupdf_open env (log (OpenPdf path) w) path = Inr doc"
    using stored by (simp add: pymupdf_open_def log_def)
  have months: "month_loop (heap w fv) [] = normalize_months (heap w fv)"
    by (simp add: normalize_months_def)
  from pv obtain wy where wy: "split_year (normalize_months (heap w fv)) = Inr wy"
    and pv_eq: "clear_duplicate_seller (backfill wy) = pv"
    by (auto simp: normalize_values_def and_then_def split: sum.splits)
  show ?thesis
    unfolding fill_pdf_form_def Let_def opened
    using neq wy
    by (simp add: new_dict_def update_dict_def log_def months pv_eq
        split: sum.splits option.splits prod.splits)
qed

lemma fill_pdf_form_success:
  assumes ref: "fv < next_ref w"
    and stored: "files w path = Some (Pdf doc)"
    and out: "with_stem_filled env path = Inr out"
    and writable: "write_error env out = None"
    and pv: "normalize_values (heap w fv) = Inr pv"
    and acc: "updates_accepted env pv doc"
  shows "fill_pdf_form env path fv w =
     (Filled (''Filled '' @ str_nat (length (updated pv doc)) @ '' fields'') out
        (length (updated pv doc)) (b64encode env (Pdf (map (map (commit_widget env pv)) doc)))
        ''Decode pdf_base64 from base64 and save as .pdf'',
      w\<lparr>files := (files w)(out \<mapsto> Pdf (map (map (commit_widget env pv)) doc)),
        heap := (heap w)(next_ref w := pv),
        next_ref := Suc (next_ref w),
        trace := trace w @ [OpenPdf path, SavePdf out, ReadFile out]\<rparr>)"
proof -
  have pages: "fill_pages env pv doc 0 =
      Inr (map (map (commit_widget env pv)) doc, length (updated pv doc))"
    using fill_pages_accepted [OF acc, of 0] by simp
  show ?thesis
    unfolding fill_pdf_form_prepared [OF ref stored pv] pages
    by (simp add: out writable external_def)
qed

lemma fill_pdf_form_refused:
  assumes ref: "fv < next_ref w"
    and stored: "files w path = Some (Pdf doc)"
    and pv: "normalize_values (heap w fv) = Inr pv"
    and acc: "\<not> updates_accepted env pv doc"
  shows "\<exists>reason w'. fill_pdf_form env path fv w =
       (Message Error (''Failed to fill PDF: '' @ reason), w') \<and> files w' = files w"
proof -
  obtain reason where pages: "fill_pages env pv doc 0 = Inl (Raised reason)"
    using fill_pages_refused [OF acc, of 0] by blast
  have "fill_pdf_form env path fv w =
      (Message Error (''Failed to fill PDF: '' @ reason),
       w\<lparr>heap := (heap w)(next_ref w := pv), next_ref := Suc (next_ref w),
         trace := trace w @ [OpenPdf path]\<rparr>)"
    unfolding fill_pdf_form_prepared [OF ref stored pv] pages
    by (simp add: failed_def)
  moreover have "files (w\<lparr>heap := (heap w)(next_ref w := pv), next_ref := Suc (next_ref w),
         trace := trace w @ [OpenPdf path]\<rparr>) = files w"
    by simp
  ultimately show ?thesis by blast
qed

lemma commit_widget_name [simp]: "field_name (commit_widget env pv wd) = field_name wd"
  by (simp add: commit_widget_def split: option.splits sum.splits)

lemma commit_widget_type [simp]:
  "field_type_string (commit_widget env pv wd) = field_type_string wd"
  by (simp add: commit_widget_def split: option.splits sum.splits)

lemma commit_widget_absent:
  "field_name wd \<notin> set (keys pv) \<Longrightarrow> field_value (commit_widget env pv wd) = field_value wd"
  by (simp add: commit_widget_def get_None_iff [symmetric])


text \<open>
  Claim C8. The caller's map is an existing object, the source file holds a document and the
  output can be saved. When the PDF library accepts the updates, \<open>fill_pdf_form\<close> succeeds
  and the saved document has the pages and widgets of the source document, with their names
  and types. A widget whose name is not a key of the normalized value map holds the value it
  held in the source document: only widgets whose names are keys of the map can differ. When
  the library raises in an update, the call returns an error result and writes no file.
\<close>

theorem unlisted_fields_kept:
  assumes "field_values < next_ref w"
    and "files w pdf_path = Some (Pdf doc)"
    and "with_stem_filled env pdf_path = Inr output_path"
    and "write_error env output_path = None"
  shows "\<exists>pv. normalize_values (heap w field_values) = Inr pv \<and>
     (updates_accepted env pv doc \<longrightarrow>
        (\<exists>doc' message n b64 instr w'.
           fill_pdf_form env pdf_path field_values w =
             (Filled message output_path n b64 instr, w') \<and>
           files w' output_path = Some (Pdf doc') \<and>
           length doc' = length doc \<and>
           (\<forall>i < length doc. length (doc' ! i) = length (doc ! i) \<and>
              (\<forall>j < length (doc ! i).
                 field_name (doc' ! i ! j) = field_name (doc ! i ! j) \<and>
                 field_type_string (doc' ! i ! j) = field_type_string (doc ! i ! j) \<and>
                 (field_name (doc ! i ! j) \<notin> set (keys pv) \<longrightarrow>
                    field_value (doc' ! i ! j) = field_value (doc ! i ! j)))))) \<and>
     (\<not> updates_accepted env pv doc \<longrightarrow>
        (\<exists>reason w'. fill_pdf_form env pdf_path field_values w =
             (Message Error (''Failed to fill PDF: '' @ reason), w') \<and>
           files w' = files w))"
proof -
  obtain pv where pv: "normalize_values (heap w field_values) = Inr pv"
    using normalize_values_total by blast
  let ?doc' = "map (map (commit_widget env pv)) doc"
  have frame: "\<forall>i < length doc. length (?doc' ! i) = length (doc ! i) \<and>
        (\<forall>j < length (doc ! i).
           field_name (?doc' ! i ! j) = field_name (doc ! i ! j) \<and>
           field_type_string (?doc' ! i ! j) = field_type_string (doc ! i ! j) \<and>
           (field_name (doc ! i ! j) \<notin> set (keys pv) \<longrightarrow>
              field_value (?doc' ! i ! j) = field_value (doc ! i ! j)))"
    by (simp add: commit_widget_absent)
  have ok: "updates_accepted env pv doc \<longrightarrow>
        (\<exists>doc' message n b64 instr w'.
           fill_pdf_form env pdf_path field_values w =
             (Filled message output_path n b64 instr, w') \<and>
           files w' output_path = Some (Pdf doc') \<and>
           length doc' = length doc \<and>
           (\<forall>i < length doc. length (doc' ! i) = length (doc ! i) \<and>
              (\<forall>j < length (doc ! i).
                 field_name (doc' ! i ! j) = field_name (doc ! i ! j) \<and>
                 field_type_string (doc' ! i ! j) = field_type_string (doc ! i ! j) \<and>
                 (field_name (doc ! i ! j) \<notin> set (keys pv) \<longrightarrow>
                    field_value (doc' ! i ! j) = field_value (doc ! i ! j)))))"
  proof
    assume acc: "updates_accepted env pv doc"
    show "\<exists>doc' message n b64 instr w'.
           fill_pdf_form env pdf_path field_values w =
             (Filled message output_path n b64 instr, w') \<and>
           files w' output_path = Some (Pdf doc') \<and>
           length doc' = length doc \<and>
           (\<forall>i < length doc. length (doc' ! i) = length (doc ! i) \<and>
              (\<forall>j < length (doc ! i).
                 field_name (doc' ! i ! j) = field_name (doc ! i ! j) \<and>
                 field_type_string (doc' ! i ! j) = field_type_string (doc ! i ! j) \<and>
                 (field_name (doc ! i ! j) \<notin> set (keys pv) \<longrightarrow>
                    field_value (doc' ! i ! j) = field_value (doc ! i ! j))))"
      using fill_pdf_form_success [OF assms pv acc] frame by simp
  qed
  have bad: "\<not> updates_accepted env pv doc \<longrightarrow>
        (\<exists>reason w'. fill_pdf_form env pdf_path field_values w =
             (Message Error (''Failed to fill PDF: '' @ reason), w') \<and>
           files w' = files w)"
    using fill_pdf_form_refused [OF assms(1,2) pv] by blast
  from pv ok bad show ?thesis
    by (intro exI [where x = pv] conjI)
qed

lemma heap_update_dict: "r \<noteq> a \<Longrightarrow> heap (update_dict a f w) r = heap w r"
  by (simp add: update_dict_def)

lemma next_ref_update_dict [simp]: "next_ref (update_dict a f w) = next_ref w"
  by (simp add: update_dict_def)

text \<open>
  Claim C10. \<open>fill_pdf_form\<close> leaves every \<^verbatim>\<open>dict\<close> object that exists when it
  is called as it is, the caller's value map among them, whatever it returns (there is no
  assumption on the files or on the capabilities, so the statement covers the successful call
  and every failing one): the passes write to the object that the call itself creates.
\<close>

theorem caller_mapping_unchanged:
  assumes "r < next_ref w"
  shows "heap (snd (fill_pdf_form env pdf_path field_values w)) r = heap w r"
proof -
  have neq: "r \<noteq> next_ref w" using assms by simp
  show ?thesis
    unfolding fill_pdf_form_def Let_def new_dict_def
    using neq
    by (simp add: heap_update_dict log_def split: sum.splits option.splits prod.splits)
qed

section \<open>Reading a filled form back\<close>





lemma extract_form_fields_document:
  "files w path = Some (Pdf doc) \<Longrightarrow>
   extract_form_fields env path w =
     (Extracted path (length (pages_loop doc 0 [])) (pages_loop doc 0 []), log (OpenPdf path) w)"
  by (simp add: extract_form_fields_def pymupdf_open_def log_def Let_def)


section \<open>The orchestrator\<close>

lemmas prog_defs = process_email_automation_def try_block_def bind_def call_def pure_def ret_def

lemma process_no_pdf:
  assumes "parse_email env url w = (r1, w1)"
    and "status_of r1 \<noteq> Success \<or> pdf_urls_get r1 = None \<or> pdf_urls_get r1 = Some []"
  shows "process_email_automation env url w = (Message Error ''No PDF found in email'', w1)"
  using assms by (auto simp: prog_defs)

lemma process_download_failed:
  assumes "parse_email env url w = (Parsed sender subject k (pdf_url # others), w1)"
    and "download_pdf env pdf_url w1 = (r2, w2)"
    and "status_of r2 \<noteq> Success"
  shows "process_email_automation env url w = (r2, w2)"
  using assms by (simp add: prog_defs and_then_def first_item_def)

lemma process_extract_failed:
  assumes "parse_email env url w = (Parsed sender subject k (pdf_url # others), w1)"
    and "download_pdf env pdf_url w1 = (Downloaded m pdf_path sz, w2)"
    and "extract_form_fields env pdf_path w2 = (r3, w3)"
    and "status_of r3 \<noteq> Success"
  shows "process_email_automation env url w = (r3, w3)"
  using assms by (simp add: prog_defs and_then_def first_item_def)

lemma process_no_fields:
  assumes "parse_email env url w = (Parsed sender subject k (pdf_url # others), w1)"
    and "download_pdf env pdf_url w1 = (Downloaded m pdf_path sz, w2)"
    and "extract_form_fields env pdf_path w2 = (Extracted p 0 field_map, w3)"
  shows "process_email_automation env url w =
     (Message Info ''PDF has no fillable form fields'', w3)"
  using assms by (simp add: prog_defs and_then_def first_item_def)

lemma process_generate_failed:
  assumes "parse_email env url w = (Parsed sender subject k (pdf_url # others), w1)"
    and "download_pdf env pdf_url w1 = (Downloaded m pdf_path sz, w2)"
    and "extract_form_fields env pdf_path w2 = (Extracted p n field_map, w3)"
    and "n \<noteq> 0"
    and "generate_form_values env (names_to_generate field_map) w3 = (r4, w4)"
    and "status_of r4 \<noteq> Success"
  shows "process_email_automation env url w = (r4, w4)"
  using assms by (simp add: prog_defs and_then_def first_item_def)

lemma trace_parse_email: "trace (snd (parse_email env url w)) = trace w @ [HttpGet url]"
  by (simp add: parse_email_def log_def Let_def split: sum.splits)

lemma download_pdf_failed:
  "download_pdf env url w = (r, w') \<Longrightarrow> status_of r \<noteq> Success \<Longrightarrow>
   w' = log (HttpGet url) w"
  by (auto simp: download_pdf_def Let_def failed_def split: sum.splits option.splits)

lemma download_pdf_succeeded:
  "download_pdf env url w = (Downloaded m path sz, w') \<Longrightarrow>
   path = download_filepath url \<and>
   w' = (log (WriteFile path) (log (HttpGet url) w))
          \<lparr>files := (files w)(path \<mapsto> (case http_content env url of Inr body \<Rightarrow> body))\<rparr>"
  by (auto simp: download_pdf_def Let_def failed_def log_def external_def
      split: sum.splits option.splits)

lemma extract_form_fields_world:
  "extract_form_fields env path w = (r, w') \<Longrightarrow> w' = log (OpenPdf path) w"
  by (auto simp: extract_form_fields_def Let_def split: sum.splits)

lemma generate_form_values_failed:
  "generate_form_values env names w = (r, w') \<Longrightarrow> status_of r \<noteq> Success \<Longrightarrow>
   w' = log (Generate names) w"
  by (auto simp: generate_form_values_def Let_def failed_def new_dict_def
      split: sum.splits prod.splits)

lemma parse_email_world: "snd (parse_email env url w) = log (HttpGet url) w"
  by (simp add: parse_email_def Let_def split: sum.splits)

text \<open>
  Claim C1, as amended. A parse result that is not a success, or that has no attachment URL,
  ends the run with the fixed error result "No PDF found in email" in the world that the parse
  stage left: only the request for the email was made. A download, inspect or synthesize
  result that is not a success is returned as it is, in the world that this stage left: the
  calls recorded are those of the stages up to it, and no later stage runs.
\<close>

theorem first_failure_is_final:
  "(parse_email env url w = (r1, w1) \<and>
      (status_of r1 \<noteq> Success \<or> pdf_urls_get r1 = None \<or> pdf_urls_get r1 = Some []) \<longrightarrow>
    process_email_automation env url w = (Message Error ''No PDF found in email'', w1) \<and>
    trace w1 = trace w @ [HttpGet url]) \<and>
   (parse_email env url w = (Parsed sender subject k (pdf_url # others), w1) \<and>
      download_pdf env pdf_url w1 = (r2, w2) \<and> status_of r2 \<noteq> Success \<longrightarrow>
    process_email_automation env url w = (r2, w2) \<and>
    trace w2 = trace w @ [HttpGet url, HttpGet pdf_url]) \<and>
   (parse_email env url w = (Parsed sender subject k (pdf_url # others), w1) \<and>
      download_pdf env pdf_url w1 = (Downloaded m pdf_path sz, w2) \<and>
      extract_form_fields env pdf_path w2 = (r3, w3) \<and> status_of r3 \<noteq> Success \<longrightarrow>
    process_email_automation env url w = (r3, w3) \<and>
    trace w3 = trace w @ [HttpGet url, HttpGet pdf_url, WriteFile pdf_path, OpenPdf pdf_path]) \<and>
   (parse_email env url w = (Parsed sender subject k (pdf_url # others), w1) \<and>
      download_pdf env pdf_url w1 = (Downloaded m pdf_path sz, w2) \<and>
      extract_form_fields env pdf_path w2 = (Extracted p n field_map, w3) \<and> n \<noteq> 0 \<and>
      generate_form_values env (names_to_generate field_map) w3 = (r4, w4) \<and>
      status_of r4 \<noteq> Success \<longrightarrow>
    process_email_automation env url w = (r4, w4) \<and>
    trace w4 = trace w @ [HttpGet url, HttpGet pdf_url, WriteFile pdf_path, OpenPdf pdf_path,
      Generate (names_to_generate field_map)])"
proof (intro conjI impI; elim conjE)
  assume "parse_email env url w = (r1, w1)"
    and "status_of r1 \<noteq> Success \<or> pdf_urls_get r1 = None \<or> pdf_urls_get r1 = Some []"
  then show "process_email_automation env url w = (Message Error ''No PDF found in email'', w1)"
    by (rule process_no_pdf)
next
  assume "parse_email env url w = (r1, w1)"
  then show "trace w1 = trace w @ [HttpGet url]"
    using trace_parse_email [of env url w] by simp
next
  assume "parse_email env url w = (Parsed sender subject k (pdf_url # others), w1)"
    and "download_pdf env pdf_url w1 = (r2, w2)" and "status_of r2 \<noteq> Success"
  then show "process_email_automation env url w = (r2, w2)"
    by (rule process_download_failed)
next
  assume p: "parse_email env url w = (Parsed sender subject k (pdf_url # others), w1)"
    and d: "download_pdf env pdf_url w1 = (r2, w2)" "status_of r2 \<noteq> Success"
  have "w1 = log (HttpGet url) w"
    using p parse_email_world [of env url w] by simp
  then show "trace w2 = trace w @ [HttpGet url, HttpGet pdf_url]"
    using download_pdf_failed [OF d] by (simp add: log_def)
next
  assume "parse_email env url w = (Parsed sender subject k (pdf_url # others), w1)"
    and "download_pdf env pdf_url w1 = (Downloaded m pdf_path sz, w2)"
    and "extract_form_fields env pdf_path w2 = (r3, w3)" and "status_of r3 \<noteq> Success"
  then show "process_email_automation env url w = (r3, w3)"
    by (rule process_extract_failed)
next
  assume p: "parse_email env url w = (Parsed sender subject k (pdf_url # others), w1)"
    and d: "download_pdf env pdf_url w1 = (Downloaded m pdf_path sz, w2)"
    and e: "extract_form_fields env pdf_path w2 = (r3, w3)"
  have "w1 = log (HttpGet url) w"
    using p parse_email_world [of env url w] by simp
  then show "trace w3 = trace w @ [HttpGet url, HttpGet pdf_url, WriteFile pdf_path,
      OpenPdf pdf_path]"
    using download_pdf_succeeded [OF d] extract_form_fields_world [OF e] by (simp add: log_def)
next
  assume "parse_email env url w = (Parsed sender subject k (pdf_url # others), w1)"
    and "download_pdf env pdf_url w1 = (Downloaded m pdf_path sz, w2)"
    and "extract_form_fields env pdf_path w2 = (Extracted p n field_map, w3)" and "n \<noteq> 0"
    and "generate_form_values env (names_to_generate field_map) w3 = (r4, w4)"
    and "status_of r4 \<noteq> Success"
  then show "process_email_automation env url w = (r4, w4)"
    by (rule process_generate_failed)
next
  assume p: "parse_email env url w = (Parsed sender subject k (pdf_url # others), w1)"
    and d: "download_pdf env pdf_url w1 = (Downloaded m pdf_path sz, w2)"
    and e: "extract_form_fields env pdf_path w2 = (Extracted p n field_map, w3)"
    and g: "generate_form_values env (names_to_generate field_map) w3 = (r4, w4)"
      "status_of r4 \<noteq> Success"
  have "w1 = log (HttpGet url) w"
    using p parse_email_world [of env url w] by simp
  then show "trace w4 = trace w @ [HttpGet url, HttpGet pdf_url, WriteFile pdf_path,
      OpenPdf pdf_path, Generate (names_to_generate field_map)]"
    using download_pdf_succeeded [OF d] extract_form_fields_world [OF e]
      generate_form_values_failed [OF g]
    by (simp add: log_def)
qed

text \<open>
  Claim C7. On a file that holds a document without any widget, \<open>extract_form_fields\<close>
  returns a success result with \<open>num_fields\<close> 0 and no field. When the email names an
  attachment URL, the download of it gives such a document and the file can be written,
  \<open>process_email_automation\<close> returns the status \<open>Info\<close> with the message "PDF has no
  fillable form fields": not an error and not a success. Nothing is generated or filled: the
  last call recorded is the opening of the downloaded file.
\<close>

theorem no_fillable_fields:
  "(files w pdf_path = Some (Pdf doc) \<and> concat doc = [] \<longrightarrow>
      extract_form_fields env pdf_path w = (Extracted pdf_path 0 [], log (OpenPdf pdf_path) w)) \<and>
   (parse_email env url w = (Parsed sender subject k (pdf_url # others), w1) \<and>
      http_content env pdf_url = Inr (Pdf doc) \<and>
      write_error env (download_filepath pdf_url) = None \<and> concat doc = [] \<longrightarrow>
      (\<exists>w'. process_email_automation env url w =
           (Message Info ''PDF has no fillable form fields'', w') \<and>
         files w' (download_filepath pdf_url) = Some (Pdf doc) \<and>
         trace w' = trace w @ [HttpGet url, HttpGet pdf_url, WriteFile (download_filepath pdf_url),
           OpenPdf (download_filepath pdf_url)]))"
proof (intro conjI impI; elim conjE)
  have empty: "\<And>p acc. concat doc = [] \<Longrightarrow> pages_loop doc p acc = acc"
  proof -
    fix p :: nat and acc :: "field_info dict"
    show "concat doc = [] \<Longrightarrow> pages_loop doc p acc = acc"
      by (induction doc arbitrary: p) simp_all
  qed
  {
    assume "files w pdf_path = Some (Pdf doc)" and "concat doc = []"
    then show "extract_form_fields env pdf_path w =
        (Extracted pdf_path 0 [], log (OpenPdf pdf_path) w)"
      by (simp add: extract_form_fields_document empty)
  }
  {
    assume p: "parse_email env url w = (Parsed sender subject k (pdf_url # others), w1)"
      and c: "http_content env pdf_url = Inr (Pdf doc)"
      and wr: "write_error env (download_filepath pdf_url) = None"
      and none: "concat doc = []"
    let ?path = "download_filepath pdf_url"
    let ?w2 = "(log (WriteFile ?path) (log (HttpGet pdf_url) w1))
                 \<lparr>files := (files w1)(?path \<mapsto> Pdf doc)\<rparr>"
    have w1: "w1 = log (HttpGet url) w"
      using p parse_email_world [of env url w] by simp
    have d: "download_pdf env pdf_url w1 =
        (Downloaded (''Downloaded PDF to '' @ ?path) ?path (size_bytes env (Pdf doc)), ?w2)"
      using c wr by (simp add: download_pdf_def Let_def external_def log_def)
    have stored: "files ?w2 ?path = Some (Pdf doc)"
      by (simp add: log_def)
    have e: "extract_form_fields env ?path ?w2 = (Extracted ?path 0 [], log (OpenPdf ?path) ?w2)"
      using stored none by (simp add: extract_form_fields_document empty)
    have "process_email_automation env url w =
        (Message Info ''PDF has no fillable form fields'', log (OpenPdf ?path) ?w2)"
      using p d e by (rule process_no_fields)
    moreover have "files (log (OpenPdf ?path) ?w2) ?path = Some (Pdf doc)"
      by (simp add: log_def)
    moreover have "trace (log (OpenPdf ?path) ?w2) =
        trace w @ [HttpGet url, HttpGet pdf_url, WriteFile ?path, OpenPdf ?path]"
      by (simp add: log_def w1)
    ultimately show "\<exists>w'. process_email_automation env url w =
           (Message Info ''PDF has no fillable form fields'', w') \<and>
         files w' ?path = Some (Pdf doc) \<and>
         trace w' = trace w @ [HttpGet url, HttpGet pdf_url, WriteFile ?path, OpenPdf ?path]"
      by blast
  }
qed

section \<open>The fill theorems at the example inputs\<close>

lemma example_hyps:
  "(0::nat) < next_ref example_world"
  "files example_world ''/tmp/mcp_pdfs/1.pdf'' = Some (Pdf example_doc)"
  "with_stem_filled (example_env False (Inr (Pdf example_doc))) ''/tmp/mcp_pdfs/1.pdf'' =
     Inr ''/tmp/mcp_pdfs/1_filled.pdf''"
  "write_error (example_env False (Inr (Pdf example_doc))) ''/tmp/mcp_pdfs/1_filled.pdf'' = None"
  by (simp_all add: example_world_def example_env_def)

lemma example_normalized:
  "normalize_values (heap example_world 0) =
     Inr [(''Month'', ''03''), (''Buyer 2'', []), (''Year-1'', ''2''), (''Year-2'', ''0''),
          (''Year-3'', ''2''), (''Year-4'', ''5''), (''Day'', ''15''), (''Seller State'', ''CA''),
          (''Buyer State'', ''CA''), (''Sell zip'', ''90210''), (''Buyer zip'', ''90210''),
          (''Sell date 1'', ''03/15/2025''), (''Sell date 2'', [])]"
  by code_simp

lemma example_accepted:
  "updates_accepted (example_env False (Inr (Pdf example_doc)))
     [(''Month'', ''03''), (''Buyer 2'', []), (''Year-1'', ''2''), (''Year-2'', ''0''),
      (''Year-3'', ''2''), (''Year-4'', ''5''), (''Day'', ''15''), (''Seller State'', ''CA''),
      (''Buyer State'', ''CA''), (''Sell zip'', ''90210''), (''Buyer zip'', ''90210''),
      (''Sell date 1'', ''03/15/2025''), (''Sell date 2'', [])]
     example_doc"
  by code_simp

lemma locked_hyps:
  "(0::nat) < next_ref locked_world"
  "files locked_world ''/tmp/mcp_pdfs/1.pdf'' = Some (Pdf locked_doc)"
  by (simp_all add: locked_world_def example_world_def)

lemma locked_refused:
  "\<not> updates_accepted (example_env False (Inr (Pdf example_doc)))
     [(''Month'', ''03''), (''Buyer 2'', []), (''Year-1'', ''2''), (''Year-2'', ''0''),
      (''Year-3'', ''2''), (''Year-4'', ''5''), (''Day'', ''15''), (''Seller State'', ''CA''),
      (''Buyer State'', ''CA''), (''Sell zip'', ''90210''), (''Buyer zip'', ''90210''),
      (''Sell date 1'', ''03/15/2025''), (''Sell date 2'', [])]
     locked_doc"
  by code_simp

theorem unlisted_fields_kept_witness:
  "(0::nat) < next_ref example_world \<and>
   files example_world ''/tmp/mcp_pdfs/1.pdf'' = Some (Pdf example_doc) \<and>
   with_stem_filled (example_env False (Inr (Pdf example_doc))) ''/tmp/mcp_pdfs/1.pdf'' =
     Inr ''/tmp/mcp_pdfs/1_filled.pdf'' \<and>
   write_error (example_env False (Inr (Pdf example_doc))) ''/tmp/mcp_pdfs/1_filled.pdf'' = None \<and>
   (\<exists>pv. normalize_values (heap example_world 0) = Inr pv \<and>
      updates_accepted (example_env False (Inr (Pdf example_doc))) pv example_doc \<and>
      (\<exists>doc' message n b64 instr w'.
         fill_pdf_form (example_env False (Inr (Pdf example_doc))) ''/tmp/mcp_pdfs/1.pdf'' 0
             example_world =
           (Filled message ''/tmp/mcp_pdfs/1_filled.pdf'' n b64 instr, w') \<and>
         files w' ''/tmp/mcp_pdfs/1_filled.pdf'' = Some (Pdf doc') \<and>
         length doc' = length example_doc \<and>
         (\<forall>i < length example_doc. length (doc' ! i) = length (example_doc ! i) \<and>
            (\<forall>j < length (example_doc ! i).
               field_name (doc' ! i ! j) = field_name (example_doc ! i ! j) \<and>
               field_type_string (doc' ! i ! j) = field_type_string (example_doc ! i ! j) \<and>
               (field_name (example_doc ! i ! j) \<notin> set (keys pv) \<longrightarrow>
                  field_value (doc' ! i ! j) = field_value (example_doc ! i ! j)))))) \<and>
   (0::nat) < next_ref locked_world \<and>
   files locked_world ''/tmp/mcp_pdfs/1.pdf'' = Some (Pdf locked_doc) \<and>
   (\<exists>pv. normalize_values (heap locked_world 0) = Inr pv \<and>
      \<not> updates_accepted (example_env False (Inr (Pdf example_doc))) pv locked_doc \<and>
      (\<exists>reason w'.
         fill_pdf_form (example_env False (Inr (Pdf example_doc))) ''/tmp/mcp_pdfs/1.pdf'' 0
             locked_world =
           (Message Error (''Failed to fill PDF: '' @ reason), w') \<and>
         files w' = files locked_world))"
proof -
  let ?E = "example_env False (Inr (Pdf example_doc))"
  from unlisted_fields_kept [OF example_hyps] obtain pv where
    pv: "normalize_values (heap example_world 0) = Inr pv"
    and imp: "updates_accepted ?E pv example_doc \<longrightarrow>
      (\<exists>doc' message n b64 instr w'.
         fill_pdf_form ?E ''/tmp/mcp_pdfs/1.pdf'' 0 example_world =
           (Filled message ''/tmp/mcp_pdfs/1_filled.pdf'' n b64 instr, w') \<and>
         files w' ''/tmp/mcp_pdfs/1_filled.pdf'' = Some (Pdf doc') \<and>
         length doc' = length example_doc \<and>
         (\<forall>i < length example_doc. length (doc' ! i) = length (example_doc ! i) \<and>
            (\<forall>j < length (example_doc ! i).
               field_name (doc' ! i ! j) = field_name (example_doc ! i ! j) \<and>
               field_type_string (doc' ! i ! j) = field_type_string (example_doc ! i ! j) \<and>
               (field_name (example_doc ! i ! j) \<notin> set (keys pv) \<longrightarrow>
                  field_value (doc' ! i ! j) = field_value (example_doc ! i ! j)))))"
      (is "_ \<longrightarrow> ?C pv")
    by (elim exE conjE)
  have acc: "updates_accepted ?E pv example_doc"
    using pv example_accepted by (simp add: example_normalized)
  from imp acc have c: "?C pv" by (rule mp)
  have first: "\<exists>pv. normalize_values (heap example_world 0) = Inr pv \<and>
      updates_accepted ?E pv example_doc \<and> ?C pv"
    by (intro exI [where x = pv] conjI pv acc c)
  have heap: "heap locked_world 0 = heap example_world 0"
    by (simp add: locked_world_def)
  from unlisted_fields_kept [OF locked_hyps example_hyps(3,4)] obtain pw where
    pw: "normalize_values (heap locked_world 0) = Inr pw"
    and imp': "\<not> updates_accepted ?E pw locked_doc \<longrightarrow>
      (\<exists>reason w'. fill_pdf_form ?E ''/tmp/mcp_pdfs/1.pdf'' 0 locked_world =
           (Message Error (''Failed to fill PDF: '' @ reason), w') \<and>
         files w' = files locked_world)"
      (is "_ \<longrightarrow> ?D")
    by (elim exE conjE)
  have ref: "\<not> updates_accepted ?E pw locked_doc"
    using pw locked_refused by (simp add: heap example_normalized)
  from imp' ref have d: ?D by (rule mp)
  have second: "\<exists>pv. normalize_values (heap locked_world 0) = Inr pv \<and>
      \<not> updates_accepted ?E pv locked_doc \<and> ?D"
    by (intro exI [where x = pw] conjI pw ref d)
  show ?thesis
    using example_hyps locked_hyps first second by (intro conjI)
qed

theorem caller_mapping_unchanged_witness:
  "(0::nat) < next_ref example_world \<and>
   heap (snd (fill_pdf_form (example_env False (Inr (Pdf example_doc))) ''/tmp/mcp_pdfs/1.pdf'' 0
     example_world)) 0 = heap example_world 0 \<and>
   status_of (fst (fill_pdf_form (example_env False (Inr (Pdf example_doc))) ''/tmp/mcp_pdfs/1.pdf'' 0
     example_world)) = Success \<and>
   heap (snd (fill_pdf_form (example_env True (Inr (Pdf example_doc))) ''/tmp/mcp_pdfs/1.pdf'' 0
     example_world)) 0 = heap example_world 0 \<and>
   status_of (fst (fill_pdf_form (example_env True (Inr (Pdf example_doc))) ''/tmp/mcp_pdfs/1.pdf'' 0
     example_world)) = Error"
proof -
  have r: "(0::nat) < next_ref example_world" by (simp add: example_world_def)
  have ok: "status_of (fst (fill_pdf_form (example_env False (Inr (Pdf example_doc)))
      ''/tmp/mcp_pdfs/1.pdf'' 0 example_world)) = Success"
    by code_simp
  have bad: "status_of (fst (fill_pdf_form (example_env True (Inr (Pdf example_doc)))
      ''/tmp/mcp_pdfs/1.pdf'' 0 example_world)) = Error"
    by code_simp
  show ?thesis
    using r ok bad
      caller_mapping_unchanged [OF r, of "example_env False (Inr (Pdf example_doc))"
        "''/tmp/mcp_pdfs/1.pdf''" 0]
      caller_mapping_unchanged [OF r, of "example_env True (Inr (Pdf example_doc))"
        "''/tmp/mcp_pdfs/1.pdf''" 0]
    by (intro conjI)
qed



section \<open>The orchestrator at the example inputs\<close>

lemma example_parsed:
  "parse_email (example_env b served) ''https://mail.example.org/1.json'' empty_world =
     (Parsed (JStr ''jane@example.org'') (JStr ''Form'') 1 [''https://drive.google.com/f/1''],
      log (HttpGet ''https://mail.example.org/1.json'') empty_world)"
proof (rule prod_eqI)
  have "and_then (external (http_json (example_env b served) ''https://mail.example.org/1.json''))
      (parse_payload (drive_links (example_env b served))) =
      Inr (Parsed (JStr ''jane@example.org'') (JStr ''Form'') 1 [''https://drive.google.com/f/1''])"
    by code_simp
  then show "fst (parse_email (example_env b served) ''https://mail.example.org/1.json'' empty_world) =
     fst (Parsed (JStr ''jane@example.org'') (JStr ''Form'') 1 [''https://drive.google.com/f/1''],
      log (HttpGet ''https://mail.example.org/1.json'') empty_world)"
    by (simp add: parse_email_def Let_def)
  show "snd (parse_email (example_env b served) ''https://mail.example.org/1.json'' empty_world) =
     snd (Parsed (JStr ''jane@example.org'') (JStr ''Form'') 1 [''https://drive.google.com/f/1''],
      log (HttpGet ''https://mail.example.org/1.json'') empty_world)"
    by (simp add: parse_email_world)
qed

theorem first_failure_is_final_witness:
  "fst (process_email_automation (example_env False (Inl ''refused''))
      ''https://mail.example.org/2.json'' empty_world) =
     Message Error ''No PDF found in email'' \<and>
   trace (snd (process_email_automation (example_env False (Inl ''refused''))
      ''https://mail.example.org/2.json'' empty_world)) =
     [HttpGet ''https://mail.example.org/2.json''] \<and>
   fst (process_email_automation (example_env False (Inl ''refused''))
      ''https://mail.example.org/1.json'' empty_world) =
     Message Error ''Failed to download PDF: refused'' \<and>
   trace (snd (process_email_automation (example_env False (Inl ''refused''))
      ''https://mail.example.org/1.json'' empty_world)) =
     [HttpGet ''https://mail.example.org/1.json'', HttpGet ''https://drive.google.com/f/1''] \<and>
   fst (process_email_automation (example_env False (Inr (Other ''not a document'')))
      ''https://mail.example.org/1.json'' empty_world) =
     Message Error ''Failed to extract form fields: Failed to open file'' \<and>
   trace (snd (process_email_automation (example_env False (Inr (Other ''not a document'')))
      ''https://mail.example.org/1.json'' empty_world)) =
     [HttpGet ''https://mail.example.org/1.json'', HttpGet ''https://drive.google.com/f/1'',
      WriteFile ''/tmp/mcp_pdfs/1.pdf'', OpenPdf ''/tmp/mcp_pdfs/1.pdf''] \<and>
   fst (process_email_automation
      (example_env False (Inr (Pdf [[\<lparr>field_name = ''Year-1'', field_type_string = ''Text'',
         field_value = []\<rparr>]])))
      ''https://mail.example.org/1.json'' empty_world) =
     Message Error ''Failed to generate values: Request timed out'' \<and>
   trace (snd (process_email_automation
      (example_env False (Inr (Pdf [[\<lparr>field_name = ''Year-1'', field_type_string = ''Text'',
         field_value = []\<rparr>]])))
      ''https://mail.example.org/1.json'' empty_world)) =
     [HttpGet ''https://mail.example.org/1.json'', HttpGet ''https://drive.google.com/f/1'',
      WriteFile ''/tmp/mcp_pdfs/1.pdf'', OpenPdf ''/tmp/mcp_pdfs/1.pdf'', Generate []]"
proof -
  let ?u = "''https://mail.example.org/1.json''"
  let ?l = "''https://drive.google.com/f/1''"
  let ?f = "''/tmp/mcp_pdfs/1.pdf''"
  let ?w1 = "log (HttpGet ?u) empty_world"
  have t0: "trace empty_world = []" by (simp add: empty_world_def)
  \<comment> \<open>the email cannot be fetched\<close>
  let ?A = "example_env False (Inl ''refused'')"
  let ?v = "''https://mail.example.org/2.json''"
  have a1: "parse_email ?A ?v empty_world =
      (fst (parse_email ?A ?v empty_world), snd (parse_email ?A ?v empty_world))"
    by simp
  have a2: "status_of (fst (parse_email ?A ?v empty_world)) \<noteq> Success" by code_simp
  have a: "process_email_automation ?A ?v empty_world =
      (Message Error ''No PDF found in email'', snd (parse_email ?A ?v empty_world)) \<and>
      trace (snd (parse_email ?A ?v empty_world)) = trace empty_world @ [HttpGet ?v]"
    using first_failure_is_final [where env = ?A and url = ?v and w = empty_world
        and ?r1.0 = "fst (parse_email ?A ?v empty_world)"
        and ?w1.0 = "snd (parse_email ?A ?v empty_world)", THEN conjunct1] a1 a2
    by blast
  \<comment> \<open>the download fails\<close>
  have b1: "status_of (fst (download_pdf ?A ?l ?w1)) \<noteq> Success" by code_simp
  have b2: "fst (download_pdf ?A ?l ?w1) = Message Error ''Failed to download PDF: refused''"
    by code_simp
  have b: "process_email_automation ?A ?u empty_world =
      (fst (download_pdf ?A ?l ?w1), snd (download_pdf ?A ?l ?w1)) \<and>
      trace (snd (download_pdf ?A ?l ?w1)) = trace empty_world @ [HttpGet ?u, HttpGet ?l]"
    using first_failure_is_final [where env = ?A and url = ?u and w = empty_world
        and ?w1.0 = ?w1 and pdf_url = ?l and others = "[]"
        and ?r2.0 = "fst (download_pdf ?A ?l ?w1)" and ?w2.0 = "snd (download_pdf ?A ?l ?w1)",
        THEN conjunct2, THEN conjunct1]
      example_parsed [of False "Inl ''refused''"] b1
    by simp
  \<comment> \<open>the downloaded file is not a document\<close>
  let ?C = "example_env False (Inr (Other ''not a document''))"
  let ?w2 = "snd (download_pdf ?C ?l ?w1)"
  have c1: "download_pdf ?C ?l ?w1 = (Downloaded ''Downloaded PDF to /tmp/mcp_pdfs/1.pdf'' ?f 7, ?w2)"
  proof (rule prod_eqI)
    show "fst (download_pdf ?C ?l ?w1) =
        fst (Downloaded ''Downloaded PDF to /tmp/mcp_pdfs/1.pdf'' ?f 7, ?w2)"
      unfolding fst_conv by code_simp
  qed simp
  have c2: "status_of (fst (extract_form_fields ?C ?f ?w2)) \<noteq> Success" by code_simp
  have c3: "fst (extract_form_fields ?C ?f ?w2) =
      Message Error ''Failed to extract form fields: Failed to open file''"
    by code_simp
  have c: "process_email_automation ?C ?u empty_world =
      (fst (extract_form_fields ?C ?f ?w2), snd (extract_form_fields ?C ?f ?w2)) \<and>
      trace (snd (extract_form_fields ?C ?f ?w2)) =
        trace empty_world @ [HttpGet ?u, HttpGet ?l, WriteFile ?f, OpenPdf ?f]"
    using first_failure_is_final [where env = ?C and url = ?u and w = empty_world
        and ?w1.0 = ?w1 and pdf_url = ?l and others = "[]" and pdf_path = ?f and ?w2.0 = ?w2
        and ?r3.0 = "fst (extract_form_fields ?C ?f ?w2)"
        and ?w3.0 = "snd (extract_form_fields ?C ?f ?w2)",
        THEN conjunct2, THEN conjunct2, THEN conjunct1]
      example_parsed [of False "Inr (Other ''not a document'')"] c1 c2
    by simp
  \<comment> \<open>value generation fails\<close>
  let ?D = "example_env False (Inr (Pdf [[\<lparr>field_name = ''Year-1'', field_type_string = ''Text'',
         field_value = []\<rparr>]]))"
  let ?x2 = "snd (download_pdf ?D ?l ?w1)"
  let ?x3 = "snd (extract_form_fields ?D ?f ?x2)"
  let ?fm = "[(''Year-1'', \<lparr>ftype = ''Text'', fvalue = [], fpage = 0\<rparr>)]"
  have d1: "download_pdf ?D ?l ?w1 = (Downloaded ''Downloaded PDF to /tmp/mcp_pdfs/1.pdf'' ?f 7, ?x2)"
  proof (rule prod_eqI)
    show "fst (download_pdf ?D ?l ?w1) =
        fst (Downloaded ''Downloaded PDF to /tmp/mcp_pdfs/1.pdf'' ?f 7, ?x2)"
      unfolding fst_conv by code_simp
  qed simp
  have d2: "extract_form_fields ?D ?f ?x2 = (Extracted ?f 1 ?fm, ?x3)"
  proof (rule prod_eqI)
    show "fst (extract_form_fields ?D ?f ?x2) = fst (Extracted ?f 1 ?fm, ?x3)"
      unfolding fst_conv by code_simp
  qed simp
  have d3: "names_to_generate ?fm = []" by code_simp
  have d4: "status_of (fst (generate_form_values ?D [] ?x3)) \<noteq> Success" by code_simp
  have d5: "fst (generate_form_values ?D [] ?x3) =
      Message Error ''Failed to generate values: Request timed out''"
    by code_simp
  have d: "process_email_automation ?D ?u empty_world =
      (fst (generate_form_values ?D [] ?x3), snd (generate_form_values ?D [] ?x3)) \<and>
      trace (snd (generate_form_values ?D [] ?x3)) =
        trace empty_world @ [HttpGet ?u, HttpGet ?l, WriteFile ?f, OpenPdf ?f, Generate []]"
    using first_failure_is_final [where env = ?D and url = ?u and w = empty_world
        and ?w1.0 = ?w1 and pdf_url = ?l and others = "[]" and pdf_path = ?f and ?w2.0 = ?x2
        and ?w3.0 = ?x3 and n = 1 and field_map = ?fm
        and ?r4.0 = "fst (generate_form_values ?D [] ?x3)"
        and ?w4.0 = "snd (generate_form_values ?D [] ?x3)",
        THEN conjunct2, THEN conjunct2, THEN conjunct2]
      example_parsed [of False "Inr (Pdf [[\<lparr>field_name = ''Year-1'',
        field_type_string = ''Text'', field_value = []\<rparr>]])"] d1 d2 d4
    by (simp add: d3)
  show ?thesis
    using a b b2 c c3 d d5 by (simp add: t0)
qed

text \<open>
  Claim C1 as stated fails at two stages. When the email cannot be fetched, the parse stage
  returns "Failed to parse email: timed out" and the orchestrator returns another result, "No
  PDF found in email". When the filled document cannot be saved, the fill stage (called with
  the reference 0 of the generated values, in the world that value generation left) returns
  "Failed to fill PDF: No space left on device" and the orchestrator returns "Processing
  failed: 'output_path'".
\<close>

theorem failure_result_not_returned:
  "fst (parse_email (example_env False (Inl ''refused''))
      ''https://mail.example.org/2.json'' empty_world) =
     Message Error ''Failed to parse email: timed out'' \<and>
   fst (process_email_automation (example_env False (Inl ''refused''))
      ''https://mail.example.org/2.json'' empty_world) =
     Message Error ''No PDF found in email'' \<and>
   fst (generate_form_values (example_env True (Inr (Pdf example_doc)))
      [''Month'', ''Buyer 2'', ''Note'']
      (snd (extract_form_fields (example_env True (Inr (Pdf example_doc))) ''/tmp/mcp_pdfs/1.pdf''
        (snd (download_pdf (example_env True (Inr (Pdf example_doc)))
          ''https://drive.google.com/f/1''
          (snd (parse_email (example_env True (Inr (Pdf example_doc)))
            ''https://mail.example.org/1.json'' empty_world))))))) =
     Generated 0 2 \<and>
   fst (fill_pdf_form (example_env True (Inr (Pdf example_doc))) ''/tmp/mcp_pdfs/1.pdf'' 0
      (snd (generate_form_values (example_env True (Inr (Pdf example_doc)))
        [''Month'', ''Buyer 2'', ''Note'']
        (snd (extract_form_fields (example_env True (Inr (Pdf example_doc)))
          ''/tmp/mcp_pdfs/1.pdf''
          (snd (download_pdf (example_env True (Inr (Pdf example_doc)))
            ''https://drive.google.com/f/1''
            (snd (parse_email (example_env True (Inr (Pdf example_doc)))
              ''https://mail.example.org/1.json'' empty_world))))))))) =
     Message Error ''Failed to fill PDF: No space left on device'' \<and>
   fst (process_email_automation (example_env True (Inr (Pdf example_doc)))
      ''https://mail.example.org/1.json'' empty_world) =
     Message Error (''Processing failed: '' @ [CHR 0x27] @ ''output_path'' @ [CHR 0x27])"
  by code_simp

theorem no_fillable_fields_witness:
  "fst (extract_form_fields (example_env False (Inr (Pdf [[], []]))) ''/tmp/blank.pdf''
      (empty_world\<lparr>files := [''/tmp/blank.pdf'' \<mapsto> Pdf [[], []]]\<rparr>)) =
     Extracted ''/tmp/blank.pdf'' 0 [] \<and>
   fst (process_email_automation (example_env False (Inr (Pdf [[], []])))
      ''https://mail.example.org/1.json'' empty_world) =
     Message Info ''PDF has no fillable form fields'' \<and>
   trace (snd (process_email_automation (example_env False (Inr (Pdf [[], []])))
      ''https://mail.example.org/1.json'' empty_world)) =
     [HttpGet ''https://mail.example.org/1.json'', HttpGet ''https://drive.google.com/f/1'',
      WriteFile ''/tmp/mcp_pdfs/1.pdf'', OpenPdf ''/tmp/mcp_pdfs/1.pdf'']"
proof -
  let ?E = "example_env False (Inr (Pdf [[], []]))"
  let ?u = "''https://mail.example.org/1.json''"
  let ?l = "''https://drive.google.com/f/1''"
  let ?w = "empty_world\<lparr>files := [''/tmp/blank.pdf'' \<mapsto> Pdf [[], []]]\<rparr>"
  have path: "download_filepath ?l = ''/tmp/mcp_pdfs/1.pdf''" by code_simp
  have h1: "files ?w ''/tmp/blank.pdf'' = Some (Pdf [[], []]) \<and> concat [[], []] = ([]::widget list)"
    by simp
  have h2: "parse_email ?E ?u empty_world =
        (Parsed (JStr ''jane@example.org'') (JStr ''Form'') 1 [?l], log (HttpGet ?u) empty_world) \<and>
      http_content ?E ?l = Inr (Pdf [[], []]) \<and>
      write_error ?E (download_filepath ?l) = None \<and> concat [[], []] = ([]::widget list)"
    using example_parsed [of False "Inr (Pdf [[], []])"] by (simp add: example_env_def)
  note t = no_fillable_fields [where env = ?E and w = ?w and pdf_path = "''/tmp/blank.pdf''"
      and doc = "[[], []]"]
  note t' = no_fillable_fields [where env = ?E and url = ?u and w = empty_world
      and pdf_url = ?l and others = "[]" and doc = "[[], []]"]
  have "extract_form_fields ?E ''/tmp/blank.pdf'' ?w =
      (Extracted ''/tmp/blank.pdf'' 0 [], log (OpenPdf ''/tmp/blank.pdf'') ?w)"
    using t [THEN conjunct1] h1 by (rule mp)
  moreover have "\<exists>w'. process_email_automation ?E ?u empty_world =
           (Message Info ''PDF has no fillable form fields'', w') \<and>
         files w' (download_filepath ?l) = Some (Pdf [[], []]) \<and>
         trace w' = trace empty_world @ [HttpGet ?u, HttpGet ?l, WriteFile (download_filepath ?l),
           OpenPdf (download_filepath ?l)]"
    using t' [THEN conjunct2] h2 by (rule mp)
  ultimately show ?thesis
    by (auto simp: path empty_world_def)
qed

section \<open>Parsing an email\<close>

lemma str_exn_nonempty: "str_exn (AttributeError t a) \<noteq> []" "str_exn (NotIterable t) \<noteq> []"
  by simp_all

lemma part_shape_iff:
  "part_shape part \<longleftrightarrow>
     (\<exists>d. part = JObj d \<and>
        (map_of d ''filename'' = None \<or> (\<exists>name. map_of d ''filename'' = Some (JStr name))))"
proof (cases part)
  case (JObj d)
  show ?thesis
  proof (cases "map_of d ''filename''")
    case None
    then show ?thesis by (simp add: JObj part_shape_def)
  next
    case (Some x)
    then show ?thesis by (cases x) (simp_all add: JObj part_shape_def)
  qed
qed (simp_all add: part_shape_def)

lemma parts_loop_accepted:
  "list_all part_shape ps \<Longrightarrow>
   parts_loop links ps acc = Inr (acc @ concat (map links (filter is_pdf_part ps)))"
proof (induction ps arbitrary: acc)
  case Nil
  then show ?case by simp
next
  case (Cons part ps)
  then obtain d where d: "part = JObj d" and
    fn: "map_of d ''filename'' = None \<or> (\<exists>name. map_of d ''filename'' = Some (JStr name))"
    by (auto simp: part_shape_iff)
  from Cons have rest: "list_all part_shape ps" by simp
  from fn show ?case
  proof
    assume "map_of d ''filename'' = None"
    then show ?thesis
      using Cons.IH [OF rest]
      by (simp add: d get_or_def is_pdf_part_def endswith_def)
  next
    assume "\<exists>name. map_of d ''filename'' = Some (JStr name)"
    then obtain name where "map_of d ''filename'' = Some (JStr name)" by blast
    then show ?thesis
      using Cons.IH [OF rest]
      by (simp add: d get_or_def is_pdf_part_def endswith_def)
  qed
qed

lemma parts_loop_rejected:
  "\<not> list_all part_shape ps \<Longrightarrow> \<exists>t a. parts_loop links ps acc = Inl (AttributeError t a)"
proof (induction ps arbitrary: acc)
  case Nil
  then show ?case by simp
next
  case (Cons part ps)
  show ?case
  proof (cases "part_shape part")
    case True
    then obtain d where d: "part = JObj d" and
      fn: "map_of d ''filename'' = None \<or> (\<exists>name. map_of d ''filename'' = Some (JStr name))"
      by (auto simp: part_shape_iff)
    from True Cons.prems have "\<not> list_all part_shape ps" by simp
    then have "\<And>acc. \<exists>t a. parts_loop links ps acc = Inl (AttributeError t a)"
      by (rule Cons.IH)
    then show ?thesis
      using fn by (auto simp: d get_or_def)
  next
    case False
    show ?thesis
    proof (cases part)
      case (JObj d)
      with False obtain x where x: "map_of d ''filename'' = Some x" and "\<forall>name. x \<noteq> JStr name"
        by (auto simp: part_shape_iff)
      then show ?thesis by (cases x) (simp_all add: JObj get_or_def)
    qed simp_all
  qed
qed

lemma py_get_not_object:
  "(\<forall>d. x \<noteq> JObj d) \<Longrightarrow> py_get x key dflt = Inl (AttributeError (type_name x) ''get'')"
  by (cases x) simp_all

text \<open>The iteration over \<open>parts\<close> followed by the loop.\<close>

lemma iterate_accepted:
  assumes "parts_accepted parts"
  shows "and_then (py_iter parts) (\<lambda>ps. parts_loop links ps []) =
     Inr (concat (map links (filter is_pdf_part (case parts of JArr ps \<Rightarrow> ps | _ \<Rightarrow> []))))"
proof (cases parts)
  case (JArr ps)
  with assms have "list_all part_shape ps" by (simp add: parts_accepted_def)
  then show ?thesis
    by (simp add: JArr and_then_def parts_loop_accepted)
qed (use assms in \<open>simp_all add: parts_accepted_def and_then_def\<close>)

lemma iterate_rejected:
  assumes "\<not> parts_accepted parts"
  shows "\<exists>e. and_then (py_iter parts) (\<lambda>ps. parts_loop links ps []) = Inl e \<and> str_exn e \<noteq> []"
proof (cases parts)
  case (JArr ps)
  with assms have "\<not> list_all part_shape ps" by (simp add: parts_accepted_def)
  then obtain t a where "parts_loop links ps [] = Inl (AttributeError t a)"
    using parts_loop_rejected by blast
  then show ?thesis
    by (simp add: JArr and_then_def)
next
  case (JStr s)
  with assms obtain c cs where "s = c # cs"
    by (cases s) (simp_all add: parts_accepted_def)
  then show ?thesis
    by (simp add: JStr and_then_def)
next
  case (JObj d)
  with assms obtain k v kvs where "d = (k, v) # kvs"
    by (cases d) (auto simp: parts_accepted_def)
  then show ?thesis
    by (simp add: JObj and_then_def)
qed (simp_all add: and_then_def)

text \<open>The part of \<open>parse_payload\<close> that depends on the payload, and the part that follows.\<close>

lemma parse_payload_object:
  "parse_payload links (JObj d) =
     and_then
       (and_then (py_get (get_or d ''payload'' (JObj [])) ''parts'' (JArr []))
          (\<lambda>parts. and_then (py_iter parts) (\<lambda>ps. parts_loop links ps [])))
       (\<lambda>pdf_urls.
          and_then (py_get (get_or d ''sender'' (JObj [])) ''email'' (JStr []))
            (\<lambda>email. Inr (Parsed email (get_or d ''subject'' (JStr [])) (length pdf_urls) pdf_urls)))"
  by (simp add: parse_payload_def and_then_def split: sum.splits)

lemma parse_payload_accepted:
  assumes "accepted email_data"
  shows "\<exists>sender subject. parse_payload links email_data =
     Inr (Parsed sender subject (length (concat (map links (pdf_parts email_data))))
            (concat (map links (pdf_parts email_data))))"
proof -
  from assms obtain d where d: "email_data = JObj d"
    by (cases email_data) (simp_all add: accepted_def)
  have sender: "\<exists>s. get_or d ''sender'' (JObj []) = JObj s"
  proof (cases "map_of d ''sender''")
    case None
    then show ?thesis by (simp add: get_or_def)
  next
    case (Some x)
    with assms show ?thesis by (cases x) (simp_all add: d accepted_def get_or_def)
  qed
  have urls: "and_then (py_get (get_or d ''payload'' (JObj [])) ''parts'' (JArr []))
          (\<lambda>parts. and_then (py_iter parts) (\<lambda>ps. parts_loop links ps [])) =
      Inr (concat (map links (pdf_parts email_data)))"
  proof (cases "map_of d ''payload''")
    case None
    then show ?thesis
      by (simp add: d get_or_def and_then_def pdf_parts_def parts_of_def)
  next
    case (Some x)
    with assms obtain p where p: "x = JObj p"
      by (cases x) (simp_all add: d accepted_def)
    show ?thesis
    proof (cases "map_of p ''parts''")
      case None
      then show ?thesis
        using Some by (simp add: d p get_or_def and_then_def pdf_parts_def parts_of_def)
    next
      case (Some parts)
      with assms \<open>map_of d ''payload'' = Some x\<close> have "parts_accepted parts"
        by (simp add: d p accepted_def)
      then have "and_then (py_iter parts) (\<lambda>ps. parts_loop links ps []) =
          Inr (concat (map links (filter is_pdf_part (case parts of JArr ps \<Rightarrow> ps | _ \<Rightarrow> []))))"
        by (rule iterate_accepted)
      moreover have "pdf_parts email_data =
          filter is_pdf_part (case parts of JArr ps \<Rightarrow> ps | _ \<Rightarrow> [])"
        using Some \<open>map_of d ''payload'' = Some x\<close>
        by (simp add: d p pdf_parts_def parts_of_def split: json.splits)
      ultimately show ?thesis
        using Some \<open>map_of d ''payload'' = Some x\<close>
        by (simp add: p get_or_def and_then_def)
    qed
  qed
  from sender obtain s where "get_or d ''sender'' (JObj []) = JObj s" by blast
  then show ?thesis
    unfolding d parse_payload_object urls by (simp add: and_then_def)
qed

lemma parse_payload_rejected:
  assumes "\<not> accepted email_data"
  shows "\<exists>e. parse_payload links email_data = Inl e \<and> str_exn e \<noteq> []"
proof (cases "\<exists>d. email_data = JObj d")
  case False
  then have "py_get email_data ''sender'' (JObj []) =
      Inl (AttributeError (type_name email_data) ''get'')"
    by (intro py_get_not_object) simp
  then show ?thesis
    by (simp add: parse_payload_def and_then_def)
next
  case True
  then obtain d where d: "email_data = JObj d" by blast
  let ?urls = "and_then (py_get (get_or d ''payload'' (JObj [])) ''parts'' (JArr []))
          (\<lambda>parts. and_then (py_iter parts) (\<lambda>ps. parts_loop links ps []))"
  show ?thesis
  proof (cases ?urls)
    case (Inl e)
    have "str_exn e \<noteq> []"
    proof (cases "\<exists>p. get_or d ''payload'' (JObj []) = JObj p")
      case False
      then have "py_get (get_or d ''payload'' (JObj [])) ''parts'' (JArr []) =
          Inl (AttributeError (type_name (get_or d ''payload'' (JObj []))) ''get'')"
        by (intro py_get_not_object) simp
      with Inl show ?thesis by (auto simp: and_then_def)
    next
      case True
      then obtain p where p: "get_or d ''payload'' (JObj []) = JObj p" by blast
      let ?parts = "get_or p ''parts'' (JArr [])"
      from Inl have l: "and_then (py_iter ?parts) (\<lambda>ps. parts_loop links ps []) = Inl e"
        by (simp add: p and_then_def)
      have "\<not> parts_accepted ?parts"
      proof
        assume "parts_accepted ?parts"
        then have "\<exists>u. and_then (py_iter ?parts) (\<lambda>ps. parts_loop links ps []) = Inr u"
          using iterate_accepted by blast
        with l show False by simp
      qed
      then show ?thesis
        using iterate_rejected [of ?parts links] l by auto
    qed
    with Inl show ?thesis
      unfolding d parse_payload_object by (simp add: and_then_def)
  next
    case (Inr urls)
    have payload_ok: "case map_of d ''payload'' of
             None \<Rightarrow> True
           | Some (JObj p) \<Rightarrow>
               (case map_of p ''parts'' of None \<Rightarrow> True | Some parts \<Rightarrow> parts_accepted parts)
           | Some other \<Rightarrow> False"
    proof (cases "map_of d ''payload''")
      case None
      then show ?thesis by simp
    next
      case (Some x)
      show ?thesis
      proof (cases "\<exists>p. x = JObj p")
        case False
        then have "py_get x ''parts'' (JArr []) = Inl (AttributeError (type_name x) ''get'')"
          by (intro py_get_not_object) simp
        with Inr Some show ?thesis by (simp add: get_or_def and_then_def)
      next
        case True
        then obtain p where p: "x = JObj p" by blast
        show ?thesis
        proof (cases "map_of p ''parts''")
          case None
          then show ?thesis using Some by (simp add: p)
        next
          case (Some parts)
          have "parts_accepted parts"
          proof (rule ccontr)
            assume "\<not> parts_accepted parts"
            then obtain e where "and_then (py_iter parts) (\<lambda>ps. parts_loop links ps []) = Inl e"
              using iterate_rejected by blast
            with Inr Some \<open>map_of d ''payload'' = Some x\<close> show False
              by (simp add: p get_or_def and_then_def)
          qed
          then show ?thesis
            using Some \<open>map_of d ''payload'' = Some x\<close> by (simp add: p)
        qed
      qed
    qed
    with assms have "\<not> (case map_of d ''sender'' of
        None \<Rightarrow> True | Some (JObj s) \<Rightarrow> True | Some other \<Rightarrow> False)"
      by (simp add: d accepted_def)
    then have "\<forall>s. get_or d ''sender'' (JObj []) \<noteq> JObj s"
      by (auto simp: get_or_def split: option.splits json.splits)
    then have "py_get (get_or d ''sender'' (JObj [])) ''email'' (JStr []) =
        Inl (AttributeError (type_name (get_or d ''sender'' (JObj []))) ''get'')"
      by (intro py_get_not_object)
    with Inr show ?thesis
      unfolding d parse_payload_object by (simp add: and_then_def)
  qed
qed

lemma required_structure_accepted: "required_structure email_data \<Longrightarrow> accepted email_data"
  by (auto simp: required_structure_def accepted_def parts_accepted_def
      split: json.splits option.splits)

text \<open>
  Claim C6, as amended. \<open>parse_email\<close> returns an error result, whose message is "Failed to
  parse email: " followed by a non-empty reason, when the payload cannot be fetched or decoded
  and when an element that is present has the wrong shape: the top level, "sender" or
  "payload" is not an object, "parts" cannot be iterated or gives something that is not an
  object, or a "filename" is not a string. Every other payload gives a success result with the
  storage links of its PDF parts in order; nothing has to be present, an absent element is read
  as empty. So a payload without a PDF part, and in particular one that has the structure of
  the data model and no PDF part, gives a success result with no attachment URL.
\<close>

theorem parse_email_outcomes:
  "(http_json env url = Inl reason \<longrightarrow>
      parse_email env url w =
        (Message Error (''Failed to parse email: '' @ reason), log (HttpGet url) w)) \<and>
   (http_json env url = Inr email_data \<and> \<not> accepted email_data \<longrightarrow>
      (\<exists>e. parse_email env url w =
              (Message Error (''Failed to parse email: '' @ str_exn e), log (HttpGet url) w) \<and>
            str_exn e \<noteq> [])) \<and>
   (http_json env url = Inr email_data \<and> accepted email_data \<longrightarrow>
      (\<exists>sender subject. parse_email env url w =
         (Parsed sender subject
            (length (concat (map (drive_links env) (pdf_parts email_data))))
            (concat (map (drive_links env) (pdf_parts email_data))),
          log (HttpGet url) w))) \<and>
   (http_json env url = Inr email_data \<and> accepted email_data \<and> pdf_parts email_data = [] \<longrightarrow>
      (\<exists>sender subject. parse_email env url w =
         (Parsed sender subject 0 [], log (HttpGet url) w))) \<and>
   (required_structure email_data \<longrightarrow> accepted email_data)"
proof (intro conjI impI; (elim conjE)?)
  assume "http_json env url = Inl reason"
  then show "parse_email env url w =
      (Message Error (''Failed to parse email: '' @ reason), log (HttpGet url) w)"
    by (simp add: parse_email_def external_def and_then_def failed_def)
next
  assume j: "http_json env url = Inr email_data" and "\<not> accepted email_data"
  then obtain e where "parse_payload (drive_links env) email_data = Inl e" "str_exn e \<noteq> []"
    using parse_payload_rejected by blast
  then show "\<exists>e. parse_email env url w =
      (Message Error (''Failed to parse email: '' @ str_exn e), log (HttpGet url) w) \<and>
      str_exn e \<noteq> []"
    using j by (auto simp: parse_email_def external_def and_then_def failed_def)
next
  assume j: "http_json env url = Inr email_data" and "accepted email_data"
  then obtain sender subject where "parse_payload (drive_links env) email_data =
      Inr (Parsed sender subject
        (length (concat (map (drive_links env) (pdf_parts email_data))))
        (concat (map (drive_links env) (pdf_parts email_data))))"
    using parse_payload_accepted by blast
  then show "\<exists>sender subject. parse_email env url w =
      (Parsed sender subject
         (length (concat (map (drive_links env) (pdf_parts email_data))))
         (concat (map (drive_links env) (pdf_parts email_data))),
       log (HttpGet url) w)"
    using j by (simp add: parse_email_def external_def and_then_def)
next
  assume j: "http_json env url = Inr email_data" and "accepted email_data"
    and none: "pdf_parts email_data = []"
  then obtain sender subject where "parse_payload (drive_links env) email_data =
      Inr (Parsed sender subject
        (length (concat (map (drive_links env) (pdf_parts email_data))))
        (concat (map (drive_links env) (pdf_parts email_data))))"
    using parse_payload_accepted by blast
  then show "\<exists>sender subject. parse_email env url w =
      (Parsed sender subject 0 [], log (HttpGet url) w)"
    using j none by (simp add: parse_email_def external_def and_then_def)
next
  assume "required_structure email_data"
  then show "accepted email_data" by (rule required_structure_accepted)
qed

text \<open>
  Claim C6 as stated fails at the payload \<^verbatim>\<open>{}\<close>: it has no sender, no subject and
  no parts, and \<open>parse_email\<close> returns a success result with an empty sender, an empty
  subject and no attachment URL.
\<close>

theorem missing_structure_accepted:
  "\<not> required_structure (JObj []) \<and>
   fst (parse_email ((example_env False (Inl ''refused''))\<lparr>http_json := (\<lambda>url. Inr (JObj []))\<rparr>)
      ''https://mail.example.org/1.json'' empty_world) =
     Parsed (JStr []) (JStr []) 0 []"
  by code_simp

theorem parse_email_outcomes_witness:
  "parse_email (example_env False (Inl ''refused'')) ''https://mail.example.org/2.json''
      empty_world =
     (Message Error ''Failed to parse email: timed out'',
      log (HttpGet ''https://mail.example.org/2.json'') empty_world) \<and>
   (\<exists>e. parse_email ((example_env False (Inl ''refused''))\<lparr>http_json := (\<lambda>url. Inr (JArr []))\<rparr>)
           ''https://mail.example.org/1.json'' empty_world =
          (Message Error (''Failed to parse email: '' @ str_exn e),
           log (HttpGet ''https://mail.example.org/1.json'') empty_world) \<and>
        str_exn e \<noteq> []) \<and>
   (\<exists>sender subject. parse_email (example_env False (Inl ''refused''))
        ''https://mail.example.org/1.json'' empty_world =
      (Parsed sender subject 1 [''https://drive.google.com/f/1''],
       log (HttpGet ''https://mail.example.org/1.json'') empty_world)) \<and>
   (\<exists>sender subject.
      parse_email ((example_env False (Inl ''refused''))\<lparr>http_json := (\<lambda>url. Inr
          (JObj [(''payload'', JObj [(''parts'',
             JArr [JObj [(''filename'', JStr ''notes.txt'')]])])]))\<rparr>)
        ''https://mail.example.org/1.json'' empty_world =
      (Parsed sender subject 0 [], log (HttpGet ''https://mail.example.org/1.json'') empty_world)) \<and>
   required_structure example_mail \<and> accepted example_mail"
proof -
  let ?E = "example_env False (Inl ''refused'')"
  let ?u = "''https://mail.example.org/1.json''"
  let ?v = "''https://mail.example.org/2.json''"
  let ?list = "?E\<lparr>http_json := (\<lambda>url. Inr (JArr []))\<rparr>"
  let ?txt = "JObj [(''payload'', JObj [(''parts'',
             JArr [JObj [(''filename'', JStr ''notes.txt'')]])])]"
  let ?plain = "?E\<lparr>http_json := (\<lambda>url. Inr ?txt)\<rparr>"
  have h1: "http_json ?E ?v = Inl ''timed out''"
    by (simp add: example_env_def)
  have h2: "http_json ?list ?u = Inr (JArr []) \<and> \<not> accepted (JArr [])"
    by (simp add: accepted_def)
  have h3: "http_json ?E ?u = Inr example_mail \<and> accepted example_mail"
  proof
    show "http_json ?E ?u = Inr example_mail" by (simp add: example_env_def)
    show "accepted example_mail" by code_simp
  qed
  have urls: "concat (map (drive_links ?E) (pdf_parts example_mail)) =
      [''https://drive.google.com/f/1'']"
    by code_simp
  have h4: "http_json ?plain ?u = Inr ?txt \<and> accepted ?txt \<and> pdf_parts ?txt = []"
  proof (intro conjI)
    show "http_json ?plain ?u = Inr ?txt" by simp
    show "accepted ?txt" by code_simp
    show "pdf_parts ?txt = []" by code_simp
  qed
  have h5: "required_structure example_mail" by code_simp
  have a: "parse_email ?E ?v empty_world =
      (Message Error (''Failed to parse email: '' @ ''timed out''), log (HttpGet ?v) empty_world)"
    using parse_email_outcomes [where env = ?E and url = ?v and w = empty_world
        and reason = "''timed out''", THEN conjunct1] h1
    by (rule mp)
  have b: "\<exists>e. parse_email ?list ?u empty_world =
        (Message Error (''Failed to parse email: '' @ str_exn e), log (HttpGet ?u) empty_world) \<and>
      str_exn e \<noteq> []"
    using parse_email_outcomes [where env = ?list and url = ?u and w = empty_world
        and email_data = "JArr []", THEN conjunct2, THEN conjunct1] h2
    by (rule mp)
  have c: "\<exists>sender subject. parse_email ?E ?u empty_world =
      (Parsed sender subject
         (length (concat (map (drive_links ?E) (pdf_parts example_mail))))
         (concat (map (drive_links ?E) (pdf_parts example_mail))),
       log (HttpGet ?u) empty_world)"
    using parse_email_outcomes [where env = ?E and url = ?u and w = empty_world
        and email_data = example_mail, THEN conjunct2, THEN conjunct2, THEN conjunct1] h3
    by (rule mp)
  have d: "\<exists>sender subject. parse_email ?plain ?u empty_world =
      (Parsed sender subject 0 [], log (HttpGet ?u) empty_world)"
    using parse_email_outcomes [where env = ?plain and url = ?u and w = empty_world
        and email_data = ?txt, THEN conjunct2, THEN conjunct2, THEN conjunct2, THEN conjunct1] h4
    by (rule mp)
  have e: "accepted example_mail"
    using parse_email_outcomes [where email_data = example_mail,
        THEN conjunct2, THEN conjunct2, THEN conjunct2, THEN conjunct2] h5
    by (rule mp)
  from c have c': "\<exists>sender subject. parse_email ?E ?u empty_world =
      (Parsed sender subject 1 [''https://drive.google.com/f/1''], log (HttpGet ?u) empty_world)"
    unfolding urls by simp
  from a have a': "parse_email ?E ?v empty_world =
      (Message Error ''Failed to parse email: timed out'', log (HttpGet ?v) empty_world)"
    by simp
  show ?thesis
    using a' b c' d h5 e by (intro conjI)
qed

end
